theory Spec2Isabelle
  imports Main
begin

section \<open>Keyword ranking tracker\<close>

text \<open>
  A shallow embedding of \<^verbatim>\<open>automations/keyword_ranking_tracker/keyword_ranking_tracker.py\<close>.
  The program reads a YAML configuration and a keyword file, asks a search API once per
  keyword, extracts the rank of a target domain from each answer, and writes the records
  to a CSV file. Everything the program does to its surroundings (HTTP requests, the clock,
  the two output streams, the file system, the spreadsheet) is explicit: what the
  surroundings answer is an \<open>environment\<close>, what the program has done so far is a \<open>world\<close>.
\<close>

subsection \<open>Python strings and numbers\<close>

text \<open>\<^verbatim>\<open>s.startswith(p)\<close> on strings.\<close>

fun startswith :: "string \<Rightarrow> string \<Rightarrow> bool" where
  "startswith s [] = True"
| "startswith [] (c # p) = False"
| "startswith (x # s) (c # p) = (x = c \<and> startswith s p)"

text \<open>\<^verbatim>\<open>t in s\<close> for two strings: \<open>t\<close> occurs in \<open>s\<close> as a contiguous substring.\<close>

fun str_in :: "string \<Rightarrow> string \<Rightarrow> bool" where
  "str_in t [] = (t = [])"
| "str_in t (c # s) = (startswith (c # s) t \<or> str_in t s)"

definition digit :: "nat \<Rightarrow> char" where
  "digit n = ''0123456789'' ! (n mod 10)"

text \<open>\<^verbatim>\<open>str(n)\<close> for a natural number and for an integer.\<close>

fun str_nat :: "nat \<Rightarrow> string" where
  "str_nat n = (if n < 10 then [digit n] else str_nat (n div 10) @ [digit (n mod 10)])"

declare str_nat.simps [simp del]

definition str_int :: "int \<Rightarrow> string" where
  "str_int i = (if i < 0 then CHR ''-'' # str_nat (nat (- i)) else str_nat (nat i))"

text \<open>The format \<^verbatim>\<open>%0wd\<close>: at least \<open>w\<close> digits, padded with zeros on the left.\<close>

definition zpad :: "nat \<Rightarrow> nat \<Rightarrow> string" where
  "zpad w n = replicate (w - length (str_nat n)) (CHR ''0'') @ str_nat n"

text \<open>
  \<^verbatim>\<open>c.isdigit()\<close> on ASCII, and the reading of a string of decimal digits; they serve to
  state what a printed date holds.
\<close>

definition isdigit :: "char \<Rightarrow> bool" where
  "isdigit c = (c \<in> set ''0123456789'')"

definition digit_val :: "char \<Rightarrow> nat" where
  "digit_val c = of_char c - 48"

definition nat_of_digits :: "string \<Rightarrow> nat" where
  "nat_of_digits s = foldl (\<lambda>a c. 10 * a + digit_val c) 0 s"

subsection \<open>The clock\<close>

text \<open>
  A naive \<^verbatim>\<open>datetime\<close>, as \<^verbatim>\<open>datetime.utcnow()\<close> returns it. \<^verbatim>\<open>isoformat()\<close> leaves the
  fraction out when the microsecond is zero. \<^verbatim>\<open>strftime('%Y-%m-%d')\<close> is modelled for the
  years from 1000 on, where the C library's \<^verbatim>\<open>%Y\<close> has four digits.
\<close>

record datetime =
  year :: nat
  month :: nat
  day :: nat
  hour :: nat
  minute :: nat
  second :: nat
  microsecond :: nat

definition strftime_ymd :: "datetime \<Rightarrow> string" where
  "strftime_ymd d = zpad 4 (year d) @ ''-'' @ zpad 2 (month d) @ ''-'' @ zpad 2 (day d)"

definition isoformat :: "datetime \<Rightarrow> string" where
  "isoformat d =
     zpad 4 (year d) @ ''-'' @ zpad 2 (month d) @ ''-'' @ zpad 2 (day d) @ ''T'' @
     zpad 2 (hour d) @ '':'' @ zpad 2 (minute d) @ '':'' @ zpad 2 (second d) @
     (if microsecond d = 0 then [] else ''.'' @ zpad 6 (microsecond d))"

subsection \<open>Data\<close>

text \<open>
  Exceptions that end the run. The source raises none itself; these are the ones its
  library calls raise on the paths the model follows.
\<close>

datatype py_error =
  FileNotFoundError
  | FileExistsError
  | IsADirectoryError
  | NotADirectoryError
  | PermissionError
  | OSError
  | AttributeError
  | JSONDecodeError
  | RequestException
  | SheetError

text \<open>
  The body of an API answer, after \<^verbatim>\<open>resp.json()\<close>, in the shape the API documents and the
  code reads: the key \<^verbatim>\<open>organic_results\<close>, when present, holds a list of dictionaries whose
  \<^verbatim>\<open>link\<close>, when present, is a string; the key \<^verbatim>\<open>search_information\<close>, when present, holds a
  dictionary whose \<^verbatim>\<open>total_results\<close>, when present, is an integer. A body that is not JSON is
  \<open>None\<close>: \<^verbatim>\<open>resp.json()\<close> raises on it.
\<close>

type_synonym organic_result = "string \<rightharpoonup> string"

record serp_data =
  organic_results :: "organic_result list option"
  search_information :: "(string \<rightharpoonup> int) option"

record response =
  status_code :: int
  json :: "serp_data option"

text \<open>The dictionary \<^verbatim>\<open>fetch_serp_data\<close> returns; \<open>None\<close> in a field is Python's \<^verbatim>\<open>None\<close>.\<close>

record ranking_record =
  keyword :: string
  rank :: "nat option"
  url :: "string option"
  search_volume :: "int option"
  timestamp :: string

text \<open>
  A cell of a table: of the data frame, of the CSV file, of a spreadsheet row. An empty
  cell, a number held as an integer, a number held as a float (\<open>FloatCell n\<close> is the float
  nearest to \<open>n\<close>), a number of which the model leaves open whether it is held as an
  integer or as a float, and a string.
\<close>

datatype cell = Blank | IntCell int | FloatCell int | NumCell int | Str string

text \<open>
  The YAML document of the configuration file as \<^verbatim>\<open>yaml.safe_load\<close> returns it: \<^verbatim>\<open>None\<close>
  for an empty file, else a mapping. The values of the recognised keys are strings; a key
  whose value is null is a key the mapping does not have.
\<close>

datatype yaml_doc = YNone | YMapping "string \<rightharpoonup> string"

text \<open>
  The parsed command line, \<^verbatim>\<open>args.keywords\<close>, \<^verbatim>\<open>args.config\<close>, \<^verbatim>\<open>args.output\<close> and
  \<^verbatim>\<open>args.google_sheet\<close>, with the defaults of the argument parser.
\<close>

record arguments =
  arg_keywords :: string
  arg_config :: string
  arg_output :: "string option"
  arg_google_sheet :: "string option"

definition default_arguments :: arguments where
  "default_arguments =
     \<lparr>arg_keywords = ''automations/keyword_ranking_tracker/keywords.txt'',
      arg_config = ''automations/keyword_ranking_tracker/config.yaml'',
      arg_output = None, arg_google_sheet = None\<rparr>"

subsection \<open>Environment and world\<close>

text \<open>
  What the surroundings answer. \<open>http_get n u\<close> is the outcome of the request for the URL
  \<open>u\<close> when \<open>n\<close> requests were made before it: an exception of the HTTP library or a
  response. \<open>utcnow n\<close> is the clock's reading at the \<open>n\<close>-th call. \<open>config_files\<close> and
  \<open>keyword_files\<close> give the files that can be opened for reading; a keyword file is the
  list of its lines. \<open>gspread_installed\<close> tells whether the optional import succeeded;
  \<open>sheet_open c s\<close> is the exception, if any, raised while authorising with the credentials
  \<open>c\<close> and opening the sheet \<open>s\<close>, and \<open>sheet_append n\<close> the exception, if any, of the
  append call made after \<open>n\<close> earlier ones.
\<close>

record environment =
  environ :: "string \<rightharpoonup> string"
  config_files :: "string \<rightharpoonup> yaml_doc"
  keyword_files :: "string \<rightharpoonup> string list"
  http_get :: "nat \<Rightarrow> string \<Rightarrow> py_error + response"
  utcnow :: "nat \<Rightarrow> datetime"
  gspread_installed :: bool
  sheet_open :: "string \<Rightarrow> string \<Rightarrow> py_error option"
  sheet_append :: "nat \<Rightarrow> py_error option"

text \<open>
  A call of the file system: \<^verbatim>\<open>os.makedirs(name, exist_ok=True)\<close>, and the opening of a path
  for writing.
\<close>

datatype fs_call = MakeDirs string | OpenWrite string

text \<open>
  What the program has done, and the file system. \<open>requests\<close> are the URLs requested,
  oldest first; \<open>sheet_calls\<close> the spreadsheets opened and \<open>sheet_rows\<close> the rows appended;
  \<open>clock_reads\<close> counts the calls of \<^verbatim>\<open>datetime.utcnow()\<close>. The file system is the set of
  the directories and the regular files with their contents, under the paths as they are
  written (no normalisation of \<^verbatim>\<open>.\<close>, \<^verbatim>\<open>..\<close> or repeated slashes); a path with no slash is
  a name in the working directory, which exists. What the directories and files do not
  decide is in \<open>fs_error\<close>: the error, if any, with which the file system answers the
  call all the same (a missing permission, a full disk, a file reached under another
  spelling of its path). A CSV file's content is
  the table of its cells, header row first; the quoting of a cell and the printing of a
  number are the CSV writer's.
\<close>

record world =
  requests :: "string list"
  sheet_calls :: "(string \<times> string) list"
  sheet_rows :: "cell list list"
  clock_reads :: nat
  stderr :: "string list"
  stdout :: "string list"
  dirs :: "string set"
  files :: "string \<rightharpoonup> cell list list"
  fs_error :: "fs_call \<Rightarrow> py_error option"

subsection \<open>fetch_serp_data\<close>

definition request_url :: "string \<Rightarrow> string \<Rightarrow> string" where
  "request_url kw api_key =
     ''https://serpapi.com/search.json?q='' @ kw @ ''&engine=google&api_key='' @ api_key"

text \<open>
  The three reads of the body: \<^verbatim>\<open>data.get('organic_results', [])\<close>,
  \<^verbatim>\<open>data.get('search_information', {}).get('total_results', None)\<close> and
  \<^verbatim>\<open>result.get('link', '')\<close>.
\<close>

definition get_results :: "serp_data \<Rightarrow> organic_result list" where
  "get_results data = (case organic_results data of None \<Rightarrow> [] | Some rs \<Rightarrow> rs)"

definition get_total_results :: "serp_data \<Rightarrow> int option" where
  "get_total_results data =
     (case search_information data of None \<Rightarrow> None | Some info \<Rightarrow> info ''total_results'')"

definition get_link :: "organic_result \<Rightarrow> string" where
  "get_link result = (case result ''link'' of None \<Rightarrow> [] | Some l \<Rightarrow> l)"

text \<open>
  The loop of lines 36 to 42, \<^verbatim>\<open>for idx, result in enumerate(results, 1)\<close>: \<open>idx\<close> is the
  position of the head of the list that is left. The pair is \<^verbatim>\<open>(rank, matched_url)\<close>;
  \<^verbatim>\<open>result.get('link')\<close> is \<open>result ''link''\<close>.
\<close>

fun scan_results :: "string \<Rightarrow> nat \<Rightarrow> organic_result list \<Rightarrow> nat option \<times> string option" where
  "scan_results target_domain idx [] = (None, None)"
| "scan_results target_domain idx (result # results) =
     (if str_in target_domain (get_link result)
      then (Some idx, result ''link'')
      else scan_results target_domain (Suc idx) results)"

text \<open>
  The result is the exception raised, or the value returned: \<open>None\<close> for \<^verbatim>\<open>return None\<close>, else
  the record. The request is logged before its outcome is known; the clock is read once,
  for the timestamp.
\<close>

definition fetch_serp_data ::
  "environment \<Rightarrow> string \<Rightarrow> string \<Rightarrow> string \<Rightarrow> world \<Rightarrow> (py_error + ranking_record option) \<times> world"
where
  "fetch_serp_data env kw api_key target_domain w =
     (let u = request_url kw api_key;
          w1 = w\<lparr>requests := requests w @ [u]\<rparr>
      in case http_get env (length (requests w)) u of
           Inl e \<Rightarrow> (Inl e, w1)
         | Inr resp \<Rightarrow>
             if status_code resp \<noteq> 200
             then (Inr None,
                   w1\<lparr>stderr := stderr w1 @
                     [''Error fetching SERP for '' @ kw @ '': '' @ str_int (status_code resp)]\<rparr>)
             else (case json resp of
                     None \<Rightarrow> (Inl JSONDecodeError, w1)
                   | Some data \<Rightarrow>
                       (let found = scan_results target_domain 1 (get_results data)
                        in (Inr (Some \<lparr>keyword = kw, rank = fst found, url = snd found,
                                       search_volume = get_total_results data,
                                       timestamp = isoformat (utcnow env (clock_reads w1))\<rparr>),
                            w1\<lparr>clock_reads := Suc (clock_reads w1)\<rparr>))))"

text \<open>
  What the environment answers to the request for a keyword that is made after \<open>n\<close>
  others: \<open>answered\<close> with status 200 and a JSON body, or \<open>refused\<close> with another status.
  (Otherwise the request or the decoding of the body raises.)
\<close>

definition answered :: "environment \<Rightarrow> string \<Rightarrow> nat \<Rightarrow> string \<Rightarrow> bool" where
  "answered env api_key n kw =
     (case http_get env n (request_url kw api_key) of
        Inl e \<Rightarrow> False
      | Inr resp \<Rightarrow> status_code resp = 200 \<and> json resp \<noteq> None)"

definition refused :: "environment \<Rightarrow> string \<Rightarrow> nat \<Rightarrow> string \<Rightarrow> bool" where
  "refused env api_key n kw =
     (case http_get env n (request_url kw api_key) of
        Inl e \<Rightarrow> False
      | Inr resp \<Rightarrow> status_code resp \<noteq> 200)"

text \<open>
  The condition of the specification on an entry of the result list: it has a link, and
  the target domain is a substring of that link.
\<close>

definition has_link_containing :: "string \<Rightarrow> organic_result \<Rightarrow> bool" where
  "has_link_containing target_domain result =
     (case result ''link'' of None \<Rightarrow> False | Some l \<Rightarrow> str_in target_domain l)"

subsection \<open>load_config and load_keywords\<close>

definition load_config :: "environment \<Rightarrow> string \<Rightarrow> py_error + yaml_doc" where
  "load_config env config_path =
     (case config_files env config_path of
        None \<Rightarrow> Inl FileNotFoundError
      | Some doc \<Rightarrow> Inr doc)"

text \<open>
  \<^verbatim>\<open>c.isspace()\<close> on the ASCII characters, and \<^verbatim>\<open>s.strip()\<close>. The white space beyond
  ASCII is not modelled.
\<close>

definition isspace :: "char \<Rightarrow> bool" where
  "isspace c = (let n = (of_char c :: nat) in (9 \<le> n \<and> n \<le> 13) \<or> (28 \<le> n \<and> n \<le> 32))"

definition strip :: "string \<Rightarrow> string" where
  "strip s = rev (dropWhile isspace (rev (dropWhile isspace s)))"

definition load_keywords :: "environment \<Rightarrow> string \<Rightarrow> py_error + string list" where
  "load_keywords env keywords_path =
     (case keyword_files env keywords_path of
        None \<Rightarrow> Inl FileNotFoundError
      | Some lines \<Rightarrow> Inr (map strip (filter (\<lambda>line. strip line \<noteq> []) lines)))"

subsection \<open>The file system\<close>

text \<open>
  \<^verbatim>\<open>os.path.dirname\<close> and \<^verbatim>\<open>os.path.basename\<close> of \<^verbatim>\<open>posixpath\<close>: the head is the path up to
  and with its last slash, without its trailing slashes unless it consists of slashes.
\<close>

definition dirname :: "string \<Rightarrow> string" where
  "dirname p =
     (let head = rev (dropWhile (\<lambda>c. c \<noteq> CHR ''/'') (rev p))
      in if head \<noteq> [] \<and> head \<noteq> replicate (length head) (CHR ''/'')
         then rev (dropWhile (\<lambda>c. c = CHR ''/'') (rev head))
         else head)"

definition basename :: "string \<Rightarrow> string" where
  "basename p = rev (takeWhile (\<lambda>c. c \<noteq> CHR ''/'') (rev p))"

text \<open>
  A path without its trailing slashes, and the directories on the way to a path: its
  proper prefixes that end before a slash.
\<close>

definition rstrip_slashes :: "string \<Rightarrow> string" where
  "rstrip_slashes p = rev (dropWhile (\<lambda>c. c = CHR ''/'') (rev p))"

fun ancestors_from :: "string \<Rightarrow> string \<Rightarrow> string list" where
  "ancestors_from pre [] = []"
| "ancestors_from pre (c # s) =
     (if c = CHR ''/'' \<and> pre \<noteq> [] then [pre] else []) @ ancestors_from (pre @ [c]) s"

definition ancestors :: "string \<Rightarrow> string list" where
  "ancestors p = ancestors_from [] (rstrip_slashes p)"

text \<open>
  \<^verbatim>\<open>os.makedirs(name, exist_ok=True)\<close>. The empty name is no path: \<^verbatim>\<open>mkdir\<close> refuses it with
  \<^verbatim>\<open>FileNotFoundError\<close>, and since no directory has that name the error is raised again.
  A regular file of that name is a \<^verbatim>\<open>FileExistsError\<close>; a regular file on the way to it
  is a \<^verbatim>\<open>NotADirectoryError\<close>. Otherwise the file system may still refuse; if it does
  not, the directory and the directories on the way to it exist afterwards.
\<close>

definition makedirs :: "string \<Rightarrow> world \<Rightarrow> py_error + world" where
  "makedirs name w =
     (if name = [] then Inl FileNotFoundError
      else if rstrip_slashes name \<in> dom (files w) then Inl FileExistsError
      else if \<exists>a\<in>set (ancestors name). a \<in> dom (files w) then Inl NotADirectoryError
      else case fs_error w (MakeDirs name) of
             Some e \<Rightarrow> Inl e
           | None \<Rightarrow> Inr (w\<lparr>dirs := insert name (set (ancestors name) \<union> dirs w)\<rparr>))"

text \<open>
  Opening a path for writing and writing the content, as \<^verbatim>\<open>to_csv\<close> does. The empty path
  is a \<^verbatim>\<open>FileNotFoundError\<close>. A path that ends with a slash, with \<^verbatim>\<open>.\<close> or with \<^verbatim>\<open>..\<close>
  names a directory and is never opened: the error is the file system's,
  \<^verbatim>\<open>IsADirectoryError\<close> when the directory exists. \<^verbatim>\<open>to_csv\<close> raises an \<^verbatim>\<open>OSError\<close> when the
  parent of the path is not a directory: a regular file on the way, or a parent that
  does not exist (the working directory and the root exist). A directory in the place of
  the file is an \<^verbatim>\<open>IsADirectoryError\<close>. Otherwise the file system may still refuse; if it
  does not, the file holds the content afterwards.
\<close>

definition write_file :: "string \<Rightarrow> cell list list \<Rightarrow> world \<Rightarrow> py_error + world" where
  "write_file path content w =
     (if path = [] then Inl FileNotFoundError
      else if basename path \<in> {[], ''.'', ''..''}
      then Inl (case fs_error w (OpenWrite path) of Some e \<Rightarrow> e | None \<Rightarrow> IsADirectoryError)
      else if (\<exists>a\<in>set (ancestors path). a \<in> dom (files w)) \<or>
              (rstrip_slashes (dirname path) \<noteq> [] \<and> dirname path \<notin> dirs w)
      then Inl OSError
      else if path \<in> dirs w then Inl IsADirectoryError
      else case fs_error w (OpenWrite path) of
             Some e \<Rightarrow> Inl e
           | None \<Rightarrow> Inr (w\<lparr>files := (files w)(path \<mapsto> content)\<rparr>))"

subsection \<open>save_to_csv\<close>

text \<open>
  \<^verbatim>\<open>pd.DataFrame(results)\<close> for a list of dictionaries: the columns are the keys of the
  dictionaries in their order, so there is no column when there is no dictionary; every
  dictionary has the keys of the literal of lines 43 to 49. A column of integers without
  a missing value holds integers. A missing value makes it a column of floats when every
  number of the column fits 64 signed bits; with a number beyond that range the model
  leaves open how pandas holds the numbers of the column.
\<close>

record data_frame =
  columns :: "string list"
  rows :: "cell list list"

definition record_keys :: "string list" where
  "record_keys = [''keyword'', ''rank'', ''url'', ''search_volume'', ''timestamp'']"

definition fits_int64 :: "int option list \<Rightarrow> bool" where
  "fits_int64 column =
     list_all (\<lambda>v. case v of None \<Rightarrow> True | Some n \<Rightarrow> - (2 ^ 63) \<le> n \<and> n < 2 ^ 63) column"

definition number_cell :: "int option list \<Rightarrow> int option \<Rightarrow> cell" where
  "number_cell column v =
     (case v of
        None \<Rightarrow> Blank
      | Some n \<Rightarrow>
          if None \<in> set column
          then if fits_int64 column then FloatCell n else NumCell n
          else IntCell n)"

definition text_cell :: "string option \<Rightarrow> cell" where
  "text_cell v = (case v of None \<Rightarrow> Blank | Some s \<Rightarrow> Str s)"

definition frame_row :: "int option list \<Rightarrow> int option list \<Rightarrow> ranking_record \<Rightarrow> cell list" where
  "frame_row ranks volumes r =
     [Str (keyword r), number_cell ranks (map_option int (rank r)), text_cell (url r),
      number_cell volumes (search_volume r), Str (timestamp r)]"

definition DataFrame :: "ranking_record list \<Rightarrow> data_frame" where
  "DataFrame results =
     \<lparr>columns = (if results = [] then [] else record_keys),
      rows = map (frame_row (map (\<lambda>r. map_option int (rank r)) results)
                            (map search_volume results)) results\<rparr>"

text \<open>
  \<^verbatim>\<open>df.to_csv(path, index=False)\<close>: the header row of the column names, then the rows; a
  missing value is an empty cell.
\<close>

definition to_csv :: "data_frame \<Rightarrow> cell list list" where
  "to_csv df = map Str (columns df) # rows df"

definition save_to_csv :: "ranking_record list \<Rightarrow> string \<Rightarrow> world \<Rightarrow> py_error + world" where
  "save_to_csv results output_path w = write_file output_path (to_csv (DataFrame results)) w"

subsection \<open>update_google_sheet\<close>

text \<open>The list that is appended for a record: the numbers are Python integers.\<close>

definition sheet_row :: "ranking_record \<Rightarrow> cell list" where
  "sheet_row row =
     [Str (keyword row), (case rank row of None \<Rightarrow> Blank | Some n \<Rightarrow> IntCell (int n)),
      text_cell (url row),
      (case search_volume row of None \<Rightarrow> Blank | Some v \<Rightarrow> IntCell v),
      Str (timestamp row)]"

text \<open>The loop of lines 65 and 66; the result is the exception raised, if any.\<close>

fun append_rows :: "environment \<Rightarrow> ranking_record list \<Rightarrow> world \<Rightarrow> py_error option \<times> world" where
  "append_rows env [] w = (None, w)"
| "append_rows env (row # results) w =
     (case sheet_append env (length (sheet_rows w)) of
        Some e \<Rightarrow> (Some e, w)
      | None \<Rightarrow> append_rows env results (w\<lparr>sheet_rows := sheet_rows w @ [sheet_row row]\<rparr>))"

definition update_google_sheet ::
  "environment \<Rightarrow> ranking_record list \<Rightarrow> string \<Rightarrow> string \<Rightarrow> world \<Rightarrow> py_error option \<times> world"
where
  "update_google_sheet env results credentials_json sheet_name w =
     (if \<not> gspread_installed env
      then (None, w\<lparr>stdout := stdout w @
                      [''gspread not installed. Skipping Google Sheets update.'']\<rparr>)
      else (let w1 = w\<lparr>sheet_calls := sheet_calls w @ [(credentials_json, sheet_name)]\<rparr>
            in case sheet_open env credentials_json sheet_name of
                 Some e \<Rightarrow> (Some e, w1)
               | None \<Rightarrow> append_rows env results w1))"

subsection \<open>main\<close>

text \<open>
  How the process ends: its exit status, or the exception that nothing catches (the
  interpreter then prints a traceback and the status is 1).
\<close>

datatype outcome = Exit nat | Raised py_error

text \<open>\<^verbatim>\<open>os.getenv(key, default)\<close>, and the truth value of a string or \<^verbatim>\<open>None\<close>.\<close>

definition getenv :: "environment \<Rightarrow> string \<Rightarrow> string option \<Rightarrow> string option" where
  "getenv env key dflt = (case environ env key of Some v \<Rightarrow> Some v | None \<Rightarrow> dflt)"

definition truthy :: "string option \<Rightarrow> bool" where
  "truthy v = (case v of None \<Rightarrow> False | Some s \<Rightarrow> s \<noteq> [])"

text \<open>\<^verbatim>\<open>not v\<close> for a string or \<^verbatim>\<open>None\<close>.\<close>

definition falsy :: "string option \<Rightarrow> bool" where
  "falsy v = (case v of None \<Rightarrow> True | Some s \<Rightarrow> s = [])"

text \<open>
  Lines 87 to 91: the loop over the keywords, with the list \<^verbatim>\<open>results\<close> built so far. An
  exception of a fetch ends the run.
\<close>

fun main_collect ::
  "environment \<Rightarrow> string \<Rightarrow> string \<Rightarrow> string list \<Rightarrow> ranking_record list \<Rightarrow> world
     \<Rightarrow> (py_error + ranking_record list) \<times> world"
where
  "main_collect env api_key target_domain [] results w = (Inr results, w)"
| "main_collect env api_key target_domain (kw # kws) results w =
     (case fetch_serp_data env kw api_key target_domain w of
        (Inl e, w1) \<Rightarrow> (Inl e, w1)
      | (Inr res, w1) \<Rightarrow>
          main_collect env api_key target_domain kws
            (case res of None \<Rightarrow> results | Some r \<Rightarrow> results @ [r]) w1)"

text \<open>Line 94: \<^verbatim>\<open>args.output or f'results/keyword_rankings_{today}.csv'\<close>.\<close>

definition output_path_of :: "arguments \<Rightarrow> string \<Rightarrow> string" where
  "output_path_of args today =
     (if truthy (arg_output args)
      then (case arg_output args of Some p \<Rightarrow> p | None \<Rightarrow> [])
      else ''results/keyword_rankings_'' @ today @ ''.csv'')"

text \<open>
  Lines 99 and 100: the spreadsheet is updated when a sheet name and the credentials are
  both given and not empty. Nothing is left to do afterwards: the status is 0.
\<close>

definition main_sheet ::
  "environment \<Rightarrow> arguments \<Rightarrow> string option \<Rightarrow> ranking_record list \<Rightarrow> world \<Rightarrow> outcome \<times> world"
where
  "main_sheet env args credentials_json results w =
     (case (arg_google_sheet args, credentials_json) of
        (Some sheet_name, Some creds) \<Rightarrow>
          if sheet_name \<noteq> [] \<and> creds \<noteq> []
          then (case update_google_sheet env results creds sheet_name w of
                  (Some e, w1) \<Rightarrow> (Raised e, w1)
                | (None, w1) \<Rightarrow> (Exit 0, w1))
          else (Exit 0, w)
      | _ \<Rightarrow> (Exit 0, w))"

text \<open>Lines 93 to 100: the results are saved and, if asked for, sent to the spreadsheet.\<close>

definition main_save ::
  "environment \<Rightarrow> arguments \<Rightarrow> string option \<Rightarrow> ranking_record list \<Rightarrow> world \<Rightarrow> outcome \<times> world"
where
  "main_save env args credentials_json results w =
     (let today = strftime_ymd (utcnow env (clock_reads w));
          w1 = w\<lparr>clock_reads := Suc (clock_reads w)\<rparr>;
          output_path = output_path_of args today
      in case makedirs (dirname output_path) w1 of
           Inl e \<Rightarrow> (Raised e, w1)
         | Inr w2 \<Rightarrow>
             (case save_to_csv results output_path w2 of
                Inl e \<Rightarrow> (Raised e, w2)
              | Inr w3 \<Rightarrow>
                  main_sheet env args credentials_json results
                    (w3\<lparr>stdout := stdout w3 @ [''Saved results to '' @ output_path]\<rparr>)))"

text \<open>Lines 86 to 100, entered with the two mandatory settings.\<close>

definition main_run ::
  "environment \<Rightarrow> arguments \<Rightarrow> string \<Rightarrow> string \<Rightarrow> string option \<Rightarrow> world \<Rightarrow> outcome \<times> world"
where
  "main_run env args api_key target_domain credentials_json w =
     (case load_keywords env (arg_keywords args) of
        Inl e \<Rightarrow> (Raised e, w)
      | Inr kws \<Rightarrow>
          (case main_collect env api_key target_domain kws [] w of
             (Inl e, w1) \<Rightarrow> (Raised e, w1)
           | (Inr results, w1) \<Rightarrow> main_save env args credentials_json results w1))"

definition missing_settings_message :: string where
  "missing_settings_message =
     ''SERPAPI_KEY and TARGET_DOMAIN must be set in environment or config.''"

text \<open>
  \<^verbatim>\<open>main\<close>, from the parsed arguments on. \<^verbatim>\<open>config.get\<close> on the \<^verbatim>\<open>None\<close> of an empty
  configuration file is an \<^verbatim>\<open>AttributeError\<close>. Past the test of line 82 both settings
  are strings, so the last case of the case distinction never applies.
\<close>

definition main :: "environment \<Rightarrow> arguments \<Rightarrow> world \<Rightarrow> outcome \<times> world" where
  "main env args w =
     (case load_config env (arg_config args) of
        Inl e \<Rightarrow> (Raised e, w)
      | Inr YNone \<Rightarrow> (Raised AttributeError, w)
      | Inr (YMapping cfg) \<Rightarrow>
          (let api_key = getenv env ''SERPAPI_KEY'' (cfg ''SERPAPI_KEY'');
               target_domain = getenv env ''TARGET_DOMAIN'' (cfg ''TARGET_DOMAIN'');
               credentials_json =
                 getenv env ''GOOGLE_SHEETS_CREDENTIALS'' (cfg ''GOOGLE_SHEETS_CREDENTIALS'');
               stopped = (Exit 1, w\<lparr>stderr := stderr w @ [missing_settings_message]\<rparr>)
           in if falsy api_key \<or> falsy target_domain then stopped
              else (case (api_key, target_domain) of
                      (Some k, Some d) \<Rightarrow> main_run env args k d credentials_json w
                    | _ \<Rightarrow> stopped)))"

subsection \<open>Conditions on the surroundings\<close>

text \<open>
  The file system lets the results be saved at a path: \<open>makedirs\<close> on the parent of the
  path returns, and then \<open>write_file\<close> on the path returns (whatever is written).
\<close>

definition can_save :: "string \<Rightarrow> world \<Rightarrow> bool" where
  "can_save path w =
     (case makedirs (dirname path) w of
        Inl e \<Rightarrow> False
      | Inr w1 \<Rightarrow> (case write_file path [] w1 of Inl e \<Rightarrow> False | Inr w2 \<Rightarrow> True))"

text \<open>
  The spreadsheet step of lines 99 and 100 raises nothing before its first append: it is
  not entered, or the library is missing, or the sheet can be opened.
\<close>

definition sheet_opens :: "environment \<Rightarrow> arguments \<Rightarrow> string option \<Rightarrow> bool" where
  "sheet_opens env args credentials_json =
     (case (arg_google_sheet args, credentials_json) of
        (Some sheet_name, Some creds) \<Rightarrow>
          sheet_name = [] \<or> creds = [] \<or> gspread_installed env = False \<or>
          sheet_open env creds sheet_name = None
      | _ \<Rightarrow> True)"

subsection \<open>An example run\<close>

text \<open>
  Three keywords, \<^verbatim>\<open>shoes\<close>, \<^verbatim>\<open>boots\<close> and \<^verbatim>\<open>hats\<close>, in a file with a blank line; the API
  refuses the request for \<^verbatim>\<open>boots\<close> with status 503 and answers the others with four
  results, of which the third is the first whose link holds the target domain.
\<close>

definition example_results :: "organic_result list" where
  "example_results =
     [[''link'' \<mapsto> ''https://other.org/shoes''],
      Map.empty,
      [''link'' \<mapsto> ''https://www.example.com/shop''],
      [''link'' \<mapsto> ''https://example.com/'']]"

definition example_data :: serp_data where
  "example_data =
     \<lparr>organic_results = Some example_results,
      search_information = Some [''total_results'' \<mapsto> 1200]\<rparr>"

definition example_time :: datetime where
  "example_time =
     \<lparr>year = 2024, month = 3, day = 9, hour = 17, minute = 5, second = 42, microsecond = 0\<rparr>"

definition example_env :: environment where
  "example_env =
     \<lparr>environ = Map.empty,
      config_files = [''automations/keyword_ranking_tracker/config.yaml'' \<mapsto>
         YMapping [''SERPAPI_KEY'' \<mapsto> ''k1'', ''TARGET_DOMAIN'' \<mapsto> ''example.com'']],
      keyword_files = [''automations/keyword_ranking_tracker/keywords.txt'' \<mapsto>
         [''shoes\<newline>'', ''\<newline>'', '' boots \<newline>'', ''hats'']],
      http_get = (\<lambda>n u. if u = request_url ''boots'' ''k1''
                         then Inr \<lparr>status_code = 503, json = None\<rparr>
                         else Inr \<lparr>status_code = 200, json = Some example_data\<rparr>),
      utcnow = (\<lambda>n. example_time),
      gspread_installed = False,
      sheet_open = (\<lambda>c s. None),
      sheet_append = (\<lambda>n. None)\<rparr>"

text \<open>The same surroundings with an API that refuses every request.\<close>

definition refusing_env :: environment where
  "refusing_env = example_env\<lparr>http_get := (\<lambda>n u. Inr \<lparr>status_code = 429, json = None\<rparr>)\<rparr>"

text \<open>The same surroundings with a configuration file that sets nothing.\<close>

definition unconfigured_env :: environment where
  "unconfigured_env =
     example_env\<lparr>config_files :=
       [''automations/keyword_ranking_tracker/config.yaml'' \<mapsto> YMapping Map.empty]\<rparr>"

text \<open>The same surroundings with \<^verbatim>\<open>SERPAPI_KEY\<close> set to the empty string in the environment.\<close>

definition emptied_env :: environment where
  "emptied_env = example_env\<lparr>environ := [''SERPAPI_KEY'' \<mapsto> []]\<rparr>"

text \<open>The same surroundings with a keyword file of blank lines.\<close>

definition blank_env :: environment where
  "blank_env =
     example_env\<lparr>keyword_files :=
       [''automations/keyword_ranking_tracker/keywords.txt'' \<mapsto> [''\<newline>'', ''  \<newline>'']]\<rparr>"

text \<open>Two records, the second without rank, url and search volume.\<close>

definition example_records :: "ranking_record list" where
  "example_records =
     [\<lparr>keyword = ''shoes'', rank = Some 3, url = Some ''https://www.example.com/shop'',
       search_volume = Some 1200, timestamp = ''2024-03-09T17:05:42''\<rparr>,
      \<lparr>keyword = ''hats, caps'', rank = None, url = None,
       search_volume = None, timestamp = ''2024-03-09T17:05:43''\<rparr>]"

text \<open>Nothing done yet, and an empty working directory in which nothing is refused.\<close>

definition initial_world :: world where
  "initial_world =
     \<lparr>requests = [], sheet_calls = [], sheet_rows = [], clock_reads = 0, stderr = [],
      stdout = [], dirs = {}, files = Map.empty, fs_error = (\<lambda>c. None)\<rparr>"

text \<open>The same with a directory \<^verbatim>\<open>results\<close>.\<close>

definition prepared_world :: world where
  "prepared_world = initial_world\<lparr>dirs := {''results''}\<rparr>"

text \<open>
  The same with a regular file \<^verbatim>\<open>f\<close> in the working directory, for which the file system
  holds no other reason to refuse a call.
\<close>

definition blocked_world :: world where
  "blocked_world = initial_world\<lparr>files := [''f'' \<mapsto> []]\<rparr>"

section \<open>Properties\<close>

subsection \<open>Substrings\<close>

text \<open>\<open>str_in\<close> is the substring relation, and the empty string is in every string.\<close>

lemma startswith_iff: "startswith s p \<longleftrightarrow> (\<exists>post. s = p @ post)"
  by (induction s p rule: startswith.induct) auto

lemma str_in_iff: "str_in t s \<longleftrightarrow> (\<exists>pre post. s = pre @ t @ post)"
proof (induction s)
  case Nil
  then show ?case by auto
next
  case (Cons c s)
  show ?case
  proof
    assume "str_in t (c # s)"
    then consider "startswith (c # s) t" | "str_in t s" by auto
    then show "\<exists>pre post. c # s = pre @ t @ post"
    proof cases
      case 1
      then obtain post where "c # s = t @ post" by (auto simp: startswith_iff)
      then have "c # s = [] @ t @ post" by simp
      then show ?thesis by blast
    next
      case 2
      then obtain pre post where "s = pre @ t @ post" using Cons.IH by blast
      then have "c # s = (c # pre) @ t @ post" by simp
      then show ?thesis by blast
    qed
  next
    assume "\<exists>pre post. c # s = pre @ t @ post"
    then obtain pre post where eq: "c # s = pre @ t @ post" by blast
    show "str_in t (c # s)"
    proof (cases pre)
      case Nil
      with eq have "startswith (c # s) t" by (auto simp: startswith_iff)
      then show ?thesis by simp
    next
      case (Cons a pre')
      with eq have "s = pre' @ t @ post" by simp
      then have "str_in t s" using Cons.IH by blast
      then show ?thesis by simp
    qed
  qed
qed

lemma str_in_Nil [simp]: "str_in [] s"
  by (cases s) simp_all

subsection \<open>The rank extractor\<close>

text \<open>
  The test of line 39 reads the link of an entry with the default \<^verbatim>\<open>''\<close>. For a target
  domain that is not empty it is the condition of the specification, that the entry has a
  link and the link contains the target domain: an entry without a link does not match.
  (The empty string is in every string, so the empty target domain matches every entry,
  with or without a link.)
\<close>

lemma has_link_containing_iff:
  "t \<noteq> [] \<Longrightarrow> str_in t (get_link r) = has_link_containing t r"
  by (simp add: has_link_containing_def get_link_def split: option.split)

lemma scan_results_first:
  assumes "i < length rs" and "str_in t (get_link (rs ! i))"
    and "\<forall>j<i. \<not> str_in t (get_link (rs ! j))"
  shows "scan_results t n rs = (Some (n + i), (rs ! i) ''link'')"
  using assms
proof (induction rs arbitrary: i n)
  case Nil
  then show ?case by simp
next
  case (Cons r rs)
  show ?case
  proof (cases i)
    case 0
    with Cons.prems show ?thesis by simp
  next
    case (Suc k)
    with Cons.prems have "\<not> str_in t (get_link r)" by auto
    moreover have "k < length rs" "str_in t (get_link (rs ! k))"
      using Cons.prems Suc by simp_all
    moreover have "\<forall>j<k. \<not> str_in t (get_link (rs ! j))"
      using Cons.prems(3) Suc by auto
    ultimately show ?thesis
      using Cons.IH [of k "Suc n"] Suc by simp
  qed
qed

lemma scan_results_none:
  assumes "\<forall>r\<in>set rs. \<not> str_in t (get_link r)"
  shows "scan_results t n rs = (None, None)"
  using assms by (induction rs arbitrary: n) simp_all

lemma scan_results_both:
  assumes "t \<noteq> []"
  shows "(fst (scan_results t n rs) = None) = (snd (scan_results t n rs) = None)"
proof (induction rs arbitrary: n)
  case Nil
  show ?case by simp
next
  case (Cons r rs)
  show ?case
  proof (cases "str_in t (get_link r)")
    case True
    with assms have "r ''link'' \<noteq> None"
      by (auto simp: get_link_def split: option.splits)
    with True show ?thesis by simp
  next
    case False
    with Cons.IH show ?thesis by simp
  qed
qed

text \<open>
  The empty target domain matches the first entry whatever it is; when that entry has no
  link the rank is 1 and the url is absent. This is why C2 needs its precondition.
\<close>

lemma scan_results_empty_domain: "scan_results [] n (r # rs) = (Some n, r ''link'')"
  by simp

lemma fetch_serp_data_success:
  assumes "http_get env (length (requests w)) (request_url kw api_key) = Inr resp"
    and "status_code resp = 200" and "json resp = Some data"
  shows "fetch_serp_data env kw api_key t w =
           (Inr (Some \<lparr>keyword = kw, rank = fst (scan_results t 1 (get_results data)),
                        url = snd (scan_results t 1 (get_results data)),
                        search_volume = get_total_results data,
                        timestamp = isoformat (utcnow env (clock_reads w))\<rparr>),
            w\<lparr>requests := requests w @ [request_url kw api_key],
              clock_reads := Suc (clock_reads w)\<rparr>)"
  using assms by (simp add: fetch_serp_data_def Let_def)

lemma example_isoformat: "isoformat example_time = ''2024-03-09T17:05:42''"
  by (simp add: isoformat_def example_time_def zpad_def str_nat.simps digit_def)

text \<open>
  Claim C1. A request answered with status 200 and a JSON body returns a record. If an
  entry of the result list has a link that contains the target domain, and entry \<open>i\<close>
  (counted from 0) is the first such entry, then \<open>rank\<close> is its 1-based position \<open>i + 1\<close>
  and \<open>url\<close> is its link; with \<open>i = 0\<close>: when the first result's link contains the target
  domain, \<open>rank = 1\<close> and \<open>url\<close> is that link. The entries that match are those of which
  the test of line 39 holds, with \<^verbatim>\<open>''\<close> for the link of an entry that has none; the
  second part of the statement says that for a target domain that is not empty (the
  extractor's input constraint in the specification, which line 82 of \<^verbatim>\<open>main\<close>
  enforces) these are the entries that have a link containing the target domain.
\<close>

theorem first_match_gives_rank_and_url:
  assumes "http_get env (length (requests w)) (request_url kw api_key) = Inr resp"
    and "status_code resp = 200" and "json resp = Some data"
    and "i < length (get_results data)"
    and "str_in target_domain (get_link (get_results data ! i))"
    and "\<forall>j<i. \<not> str_in target_domain (get_link (get_results data ! j))"
  shows "fetch_serp_data env kw api_key target_domain w =
           (Inr (Some \<lparr>keyword = kw, rank = Some (i + 1),
                        url = (get_results data ! i) ''link'',
                        search_volume = get_total_results data,
                        timestamp = isoformat (utcnow env (clock_reads w))\<rparr>),
            w\<lparr>requests := requests w @ [request_url kw api_key],
              clock_reads := Suc (clock_reads w)\<rparr>) \<and>
         (target_domain \<noteq> [] \<longrightarrow>
            (\<forall>result. str_in target_domain (get_link result) =
                       has_link_containing target_domain result))"
proof -
  have "scan_results target_domain 1 (get_results data) =
          (Some (1 + i), (get_results data ! i) ''link'')"
    using assms(4,5,6) by (rule scan_results_first)
  then show ?thesis
    using fetch_serp_data_success [OF assms(1,2,3), of target_domain]
    by (simp add: has_link_containing_iff)
qed

theorem first_match_gives_rank_and_url_witness:
  "has_link_containing ''example.com'' (get_results example_data ! 2) \<and>
   fetch_serp_data example_env ''shoes'' ''k1'' ''example.com'' initial_world =
     (Inr (Some \<lparr>keyword = ''shoes'', rank = Some 3,
                  url = Some ''https://www.example.com/shop'',
                  search_volume = Some 1200,
                  timestamp = ''2024-03-09T17:05:42''\<rparr>),
      initial_world\<lparr>requests := [''https://serpapi.com/search.json?q=shoes&engine=google&api_key=k1''],
        clock_reads := 1\<rparr>)"
proof -
  let ?resp = "\<lparr>status_code = 200, json = Some example_data\<rparr>"
  have 1: "http_get example_env (length (requests initial_world)) (request_url ''shoes'' ''k1'')
             = Inr ?resp"
    by (simp add: example_env_def request_url_def)
  have 2: "status_code ?resp = 200" by simp
  have 3: "json ?resp = Some example_data" by simp
  have 4: "2 < length (get_results example_data)"
    by (simp add: get_results_def example_data_def example_results_def)
  have 5: "str_in ''example.com'' (get_link (get_results example_data ! 2))"
    by (simp add: get_results_def example_data_def example_results_def get_link_def)
  have 6: "\<forall>j<2. \<not> str_in ''example.com'' (get_link (get_results example_data ! j))"
    by (simp add: get_results_def example_data_def example_results_def get_link_def
        less_Suc_eq numeral_2_eq_2)
  have 7: "has_link_containing ''example.com'' (get_results example_data ! 2)"
    by (simp add: get_results_def example_data_def example_results_def has_link_containing_def)
  show ?thesis
    using first_match_gives_rank_and_url [OF 1 2 3 4 5 6] 7
    by (simp add: get_results_def get_total_results_def example_data_def example_results_def
        example_env_def example_isoformat initial_world_def request_url_def)
qed

text \<open>
  Claim C2. For a target domain that is not empty, every record that \<^verbatim>\<open>fetch_serp_data\<close>
  returns has a rank if and only if it has a url.
\<close>

theorem rank_present_iff_url_present:
  assumes "target_domain \<noteq> []"
    and "fetch_serp_data env kw api_key target_domain w = (Inr (Some r), w')"
  shows "(rank r \<noteq> None) = (url r \<noteq> None)"
proof (cases "http_get env (length (requests w)) (request_url kw api_key)")
  case (Inl e)
  with assms(2) show ?thesis by (simp add: fetch_serp_data_def Let_def)
next
  case (Inr resp)
  show ?thesis
  proof (cases "status_code resp = 200")
    case False
    with Inr assms(2) show ?thesis by (simp add: fetch_serp_data_def Let_def)
  next
    case True
    show ?thesis
    proof (cases "json resp")
      case None
      with Inr True assms(2) show ?thesis by (simp add: fetch_serp_data_def Let_def)
    next
      case (Some data)
      from assms(2) have "rank r = fst (scan_results target_domain 1 (get_results data))"
        and "url r = snd (scan_results target_domain 1 (get_results data))"
        unfolding fetch_serp_data_success [OF Inr True Some] by auto
      then show ?thesis
        using scan_results_both [OF assms(1), of 1 "get_results data"] by simp
    qed
  qed
qed

theorem rank_present_iff_url_present_witness:
  "''example.com'' \<noteq> [] \<and>
   fetch_serp_data example_env ''hats'' ''k1'' ''example.com'' initial_world =
     (Inr (Some \<lparr>keyword = ''hats'', rank = Some 3,
                  url = Some ''https://www.example.com/shop'',
                  search_volume = Some 1200,
                  timestamp = ''2024-03-09T17:05:42''\<rparr>),
      initial_world\<lparr>requests := [''https://serpapi.com/search.json?q=hats&engine=google&api_key=k1''],
        clock_reads := 1\<rparr>) \<and>
   (rank \<lparr>keyword = ''hats'', rank = Some 3,
                  url = Some ''https://www.example.com/shop'',
                  search_volume = Some 1200,
                  timestamp = ''2024-03-09T17:05:42''\<rparr> \<noteq> None) =
   (url \<lparr>keyword = ''hats'', rank = Some 3,
                  url = Some ''https://www.example.com/shop'',
                  search_volume = Some 1200,
                  timestamp = ''2024-03-09T17:05:42''\<rparr> \<noteq> None)"
proof -
  have 1: "''example.com'' \<noteq> []" by simp
  have 2: "fetch_serp_data example_env ''hats'' ''k1'' ''example.com'' initial_world =
     (Inr (Some \<lparr>keyword = ''hats'', rank = Some 3,
                  url = Some ''https://www.example.com/shop'',
                  search_volume = Some 1200,
                  timestamp = ''2024-03-09T17:05:42''\<rparr>),
      initial_world\<lparr>requests := [''https://serpapi.com/search.json?q=hats&engine=google&api_key=k1''],
        clock_reads := 1\<rparr>)"
    by (simp add: fetch_serp_data_def Let_def example_env_def request_url_def initial_world_def
        get_results_def get_total_results_def example_data_def example_results_def get_link_def
        example_isoformat)
  from rank_present_iff_url_present [OF 1 2] 1 2 show ?thesis by blast
qed

text \<open>
  Claim C6. A request answered with status 200 and a JSON body in which no entry has a
  link that contains the target domain still returns a record: \<open>rank\<close> and \<open>url\<close> are
  absent, the keyword is the one asked for and the timestamp is the clock's reading in
  ISO format. As in C1 the entries that match are those of which the test of line 39
  holds, which for a target domain that is not empty are the entries with a link that
  contains it.
\<close>

theorem no_match_gives_record_without_rank:
  assumes "http_get env (length (requests w)) (request_url kw api_key) = Inr resp"
    and "status_code resp = 200" and "json resp = Some data"
    and "\<forall>result\<in>set (get_results data). \<not> str_in target_domain (get_link result)"
  shows "fetch_serp_data env kw api_key target_domain w =
           (Inr (Some \<lparr>keyword = kw, rank = None, url = None,
                        search_volume = get_total_results data,
                        timestamp = isoformat (utcnow env (clock_reads w))\<rparr>),
            w\<lparr>requests := requests w @ [request_url kw api_key],
              clock_reads := Suc (clock_reads w)\<rparr>) \<and>
         (target_domain \<noteq> [] \<longrightarrow>
            (\<forall>result. str_in target_domain (get_link result) =
                       has_link_containing target_domain result))"
proof -
  have "scan_results target_domain 1 (get_results data) = (None, None)"
    using assms(4) by (rule scan_results_none)
  then show ?thesis
    using fetch_serp_data_success [OF assms(1,2,3), of target_domain]
    by (simp add: has_link_containing_iff)
qed

theorem no_match_gives_record_without_rank_witness:
  "list_all (\<lambda>result. \<not> has_link_containing ''absent.net'' result) (get_results example_data) \<and>
   fetch_serp_data example_env ''shoes'' ''k1'' ''absent.net'' initial_world =
     (Inr (Some \<lparr>keyword = ''shoes'', rank = None, url = None, search_volume = Some 1200,
                  timestamp = ''2024-03-09T17:05:42''\<rparr>),
      initial_world\<lparr>requests := [''https://serpapi.com/search.json?q=shoes&engine=google&api_key=k1''],
        clock_reads := 1\<rparr>)"
proof -
  let ?resp = "\<lparr>status_code = 200, json = Some example_data\<rparr>"
  have 1: "http_get example_env (length (requests initial_world)) (request_url ''shoes'' ''k1'')
             = Inr ?resp"
    by (simp add: example_env_def request_url_def)
  have 2: "status_code ?resp = 200" by simp
  have 3: "json ?resp = Some example_data" by simp
  have 4: "\<forall>result\<in>set (get_results example_data). \<not> str_in ''absent.net'' (get_link result)"
    by (simp add: get_results_def example_data_def example_results_def get_link_def)
  have 5: "list_all (\<lambda>result. \<not> has_link_containing ''absent.net'' result)
             (get_results example_data)"
    by (simp add: get_results_def example_data_def example_results_def has_link_containing_def)
  show ?thesis
    using no_match_gives_record_without_rank [OF 1 2 3 4] 5
    by (simp add: get_total_results_def example_data_def
        example_env_def example_isoformat initial_world_def request_url_def)
qed

subsection \<open>The loop over the keywords\<close>

lemma refused_not_answered: "refused env api_key n kw \<Longrightarrow> \<not> answered env api_key n kw"
  by (auto simp: refused_def answered_def split: sum.splits)

lemma fetch_serp_data_answered:
  assumes "answered env api_key (length (requests w)) kw"
  shows "\<exists>r w1. fetch_serp_data env kw api_key t w = (Inr (Some r), w1) \<and> keyword r = kw \<and>
           length (requests w1) = Suc (length (requests w))"
proof -
  from assms obtain resp data
    where "http_get env (length (requests w)) (request_url kw api_key) = Inr resp"
      and "status_code resp = 200" and "json resp = Some data"
    by (auto simp: answered_def split: sum.splits)
  then show ?thesis
    using fetch_serp_data_success [of env w kw api_key resp data t] by simp
qed

lemma fetch_serp_data_refused:
  assumes "refused env api_key (length (requests w)) kw"
  shows "\<exists>msg. fetch_serp_data env kw api_key t w =
           (Inr None, w\<lparr>requests := requests w @ [request_url kw api_key],
                        stderr := stderr w @ [msg]\<rparr>)"
  using assms by (auto simp: refused_def fetch_serp_data_def Let_def split: sum.splits)

lemma upt_shift: "[n..<n + Suc m] = n # [Suc n..<Suc n + m]"
proof -
  have "[n..<n + Suc m] = n # [Suc n..<n + Suc m]"
    by (rule upt_conv_Cons) simp
  then show ?thesis by (simp only: add_Suc_right add_Suc)
qed

lemma zip_upt_Cons:
  "zip (kw # kws) [n..<n + length (kw # kws)] = (kw, n) # zip kws [Suc n..<Suc n + length kws]"
  by (simp only: length_Cons upt_shift zip_Cons_Cons)

text \<open>
  When no request raises, the loop returns, and the records it adds are those of the
  keywords whose requests (numbered from \<open>n\<close> on) are answered, in the order of the keywords.
\<close>

lemma main_collect_records:
  assumes "\<forall>k<length kws. answered env api_key (n + k) (kws ! k) \<or>
             refused env api_key (n + k) (kws ! k)"
    and "n = length (requests w)"
  shows "\<exists>new w'. main_collect env api_key t kws acc w = (Inr (acc @ new), w') \<and>
           map keyword new =
             map fst (filter (\<lambda>(kw, i). answered env api_key i kw)
                        (zip kws [n..<n + length kws]))"
  using assms
proof (induction kws arbitrary: acc w n)
  case Nil
  then show ?case by simp
next
  case (Cons kw kws)
  from Cons.prems(1) have head: "answered env api_key n kw \<or> refused env api_key n kw"
    by fastforce
  have rest: "\<forall>k<length kws. answered env api_key (Suc n + k) (kws ! k) \<or>
                refused env api_key (Suc n + k) (kws ! k)"
  proof (intro allI impI)
    fix k assume "k < length kws"
    then have "Suc k < length (kw # kws)" by simp
    with Cons.prems(1) have "answered env api_key (n + Suc k) ((kw # kws) ! Suc k) \<or>
        refused env api_key (n + Suc k) ((kw # kws) ! Suc k)" by blast
    then show "answered env api_key (Suc n + k) (kws ! k) \<or>
        refused env api_key (Suc n + k) (kws ! k)" by simp
  qed
  from head show ?case
  proof
    assume ok: "answered env api_key n kw"
    with Cons.prems(2) obtain r w1
      where f: "fetch_serp_data env kw api_key t w = (Inr (Some r), w1)"
        and k: "keyword r = kw" and l: "Suc n = length (requests w1)"
      using fetch_serp_data_answered [of env api_key w kw t] by auto
    from Cons.IH [OF rest l, of "acc @ [r]"] obtain new w'
      where "main_collect env api_key t kws (acc @ [r]) w1 = (Inr ((acc @ [r]) @ new), w')"
        and "map keyword new =
               map fst (filter (\<lambda>(kw, i). answered env api_key i kw)
                          (zip kws [Suc n..<Suc n + length kws]))"
      by blast
    with f k ok have "main_collect env api_key t (kw # kws) acc w = (Inr (acc @ (r # new)), w') \<and>
        map keyword (r # new) =
          map fst (filter (\<lambda>(kw, i). answered env api_key i kw)
                     (zip (kw # kws) [n..<n + length (kw # kws)]))"
      unfolding zip_upt_Cons by simp
    then show ?thesis by blast
  next
    assume no: "refused env api_key n kw"
    with Cons.prems(2) obtain w1
      where f: "fetch_serp_data env kw api_key t w = (Inr None, w1)"
        and l: "Suc n = length (requests w1)"
      using fetch_serp_data_refused [of env api_key w kw t] by auto
    from Cons.IH [OF rest l, of acc] obtain new w'
      where "main_collect env api_key t kws acc w1 = (Inr (acc @ new), w')"
        and "map keyword new =
               map fst (filter (\<lambda>(kw, i). answered env api_key i kw)
                          (zip kws [Suc n..<Suc n + length kws]))"
      by blast
    with f refused_not_answered [OF no]
    have "main_collect env api_key t (kw # kws) acc w = (Inr (acc @ new), w') \<and>
        map keyword new =
          map fst (filter (\<lambda>(kw, i). answered env api_key i kw)
                     (zip (kw # kws) [n..<n + length (kw # kws)]))"
      unfolding zip_upt_Cons by simp
    then show ?thesis by blast
  qed
qed

lemma filter_zip_all:
  assumes "\<forall>k<length kws. P (kws ! k) (n + k)"
  shows "filter (\<lambda>(kw, i). P kw i) (zip kws [n..<n + length kws]) = zip kws [n..<n + length kws]"
proof -
  have "\<forall>x\<in>set (zip kws [n..<n + length kws]). (\<lambda>(kw, i). P kw i) x"
    using assms by (auto simp: set_zip)
  then show ?thesis by (simp only: filter_True)
qed

lemma filter_zip_three:
  assumes "j < 3" and "\<not> P (kws ! j) (n + j)" and "\<forall>k<3. k \<noteq> j \<longrightarrow> P (kws ! k) (n + k)"
    and "length kws = 3"
  shows "map fst (filter (\<lambda>(kw, i). P kw i) (zip kws [n..<n + length kws])) =
           take j kws @ drop (Suc j) kws"
proof -
  from assms(4) obtain a b c where kws: "kws = [a, b, c]"
    by (cases kws; cases "tl kws"; cases "tl (tl kws)") auto
  have upt: "[n..<n + 3] = [n, Suc n, Suc (Suc n)]"
    by (simp add: upt_rec [of n] upt_rec [of "Suc n"] upt_rec [of "Suc (Suc n)"])
  have p0: "0 \<noteq> j \<Longrightarrow> P a n" and p1: "1 \<noteq> j \<Longrightarrow> P b (Suc n)"
    and p2: "2 \<noteq> j \<Longrightarrow> P c (Suc (Suc n))"
    using assms(3) [rule_format, of 0] assms(3) [rule_format, of 1]
      assms(3) [rule_format, of 2] kws by simp_all
  from assms(1) consider "j = 0" | "j = 1" | "j = 2" by linarith
  then show ?thesis
  proof cases
    case 1
    with assms(2) kws p1 p2 have "\<not> P a n" "P b (Suc n)" "P c (Suc (Suc n))" by simp_all
    with 1 kws upt show ?thesis by simp
  next
    case 2
    with assms(2) kws p0 p2 have "P a n" "\<not> P b (Suc n)" "P c (Suc (Suc n))" by simp_all
    with 2 kws upt show ?thesis by simp
  next
    case 3
    with assms(2) kws p0 p1 have "P a n" "P b (Suc n)" "\<not> P c (Suc (Suc n))" by simp_all
    with 3 kws upt show ?thesis by simp
  qed
qed

text \<open>
  Claim C3. Let every request of the loop be answered (status 200 with a JSON body) or
  refused (another status), the \<open>k\<close>-th keyword's request being the one made after
  \<open>length (requests w) + k\<close> others. Then the loop of \<^verbatim>\<open>main\<close> returns a list of records whose
  keywords are the keywords of the answered requests in input order; so there are at most
  as many records as keywords, and as many when every request is answered; and when one
  of three keywords is refused and the other two are answered there are exactly two
  records, those of the other two keywords in their order.
\<close>

theorem records_follow_keywords:
  assumes "\<forall>k<length kws. answered env api_key (length (requests w) + k) (kws ! k) \<or>
             refused env api_key (length (requests w) + k) (kws ! k)"
  shows "\<exists>results w'.
           main_collect env api_key target_domain kws [] w = (Inr results, w') \<and>
           map keyword results =
             map fst (filter (\<lambda>(kw, n). answered env api_key n kw)
                        (zip kws [length (requests w)..<length (requests w) + length kws])) \<and>
           length results \<le> length kws \<and>
           ((\<forall>k<length kws. answered env api_key (length (requests w) + k) (kws ! k))
              \<longrightarrow> length results = length kws) \<and>
           (\<forall>j<3. length kws = 3 \<and>
              refused env api_key (length (requests w) + j) (kws ! j) \<and>
              (\<forall>k<3. k \<noteq> j \<longrightarrow> answered env api_key (length (requests w) + k) (kws ! k))
              \<longrightarrow> length results = 2 \<and>
                  map keyword results = take j kws @ drop (Suc j) kws)"
proof -
  let ?n = "length (requests w)"
  let ?kept = "map fst (filter (\<lambda>(kw, n). answered env api_key n kw)
                         (zip kws [?n..<?n + length kws]))"
  from main_collect_records [OF assms refl, of target_domain "[]"] obtain results w'
    where run: "main_collect env api_key target_domain kws [] w = (Inr results, w')"
      and kept: "map keyword results = ?kept"
    by auto
  have len: "length results = length ?kept"
    using kept by (metis length_map)
  have le: "length results \<le> length kws"
  proof -
    have "length ?kept \<le> length (zip kws [?n..<?n + length kws])"
      unfolding length_map by (rule length_filter_le)
    then show ?thesis using len by simp
  qed
  have all: "length results = length kws"
    if "\<forall>k<length kws. answered env api_key (?n + k) (kws ! k)"
    using filter_zip_all [of kws "\<lambda>kw n. answered env api_key n kw" ?n] that len by simp
  have three: "length results = 2 \<and> map keyword results = take j kws @ drop (Suc j) kws"
    if "j < 3" and "length kws = 3" and "refused env api_key (?n + j) (kws ! j)"
      and "\<forall>k<3. k \<noteq> j \<longrightarrow> answered env api_key (?n + k) (kws ! k)" for j
  proof -
    have "?kept = take j kws @ drop (Suc j) kws"
      using filter_zip_three [of j "\<lambda>kw n. answered env api_key n kw" kws ?n]
        that refused_not_answered by blast
    with kept have eq: "map keyword results = take j kws @ drop (Suc j) kws" by simp
    have "length (take j kws @ drop (Suc j) kws) = 2" using that(1,2) by auto
    with eq have "length results = 2" by (metis length_map)
    with eq show ?thesis by simp
  qed
  from run kept le all three show ?thesis by blast
qed

theorem records_follow_keywords_witness:
  "answered example_env ''k1'' 0 ''shoes'' \<and>
   refused example_env ''k1'' 1 ''boots'' \<and>
   answered example_env ''k1'' 2 ''hats'' \<and>
   (\<exists>results w'.
      main_collect example_env ''k1'' ''example.com'' [''shoes'', ''boots'', ''hats''] []
        initial_world = (Inr results, w') \<and>
      map keyword results = [''shoes'', ''hats''] \<and> length results = 2)"
proof -
  let ?kws = "[''shoes'', ''boots'', ''hats'']"
  have n: "length (requests initial_world) = 0"
    by (simp add: initial_world_def)
  have a0: "answered example_env ''k1'' i ''shoes''"
    and r1: "refused example_env ''k1'' i ''boots''"
    and a2: "answered example_env ''k1'' i ''hats''" for i
    by (simp_all add: answered_def refused_def example_env_def request_url_def)
  have each: "answered example_env ''k1'' k (?kws ! k) \<or> refused example_env ''k1'' k (?kws ! k)"
    if "k < 3" for k
  proof -
    from that consider "k = 0" | "k = 1" | "k = 2" by linarith
    then show ?thesis using a0 r1 a2 by cases simp_all
  qed
  have hyp: "\<forall>k<length ?kws.
      answered example_env ''k1'' (length (requests initial_world) + k) (?kws ! k) \<or>
      refused example_env ''k1'' (length (requests initial_world) + k) (?kws ! k)"
    using each n by simp
  from records_follow_keywords [OF hyp, of "''example.com''"] obtain results w'
    where run: "main_collect example_env ''k1'' ''example.com'' ?kws [] initial_world
                  = (Inr results, w')"
      and three: "\<forall>j<3. length ?kws = 3 \<and>
              refused example_env ''k1'' (length (requests initial_world) + j) (?kws ! j) \<and>
              (\<forall>k<3. k \<noteq> j \<longrightarrow>
                 answered example_env ''k1'' (length (requests initial_world) + k) (?kws ! k))
              \<longrightarrow> length results = 2 \<and>
                  map keyword results = take j ?kws @ drop (Suc j) ?kws"
    by blast
  have others: "\<forall>k<3. k \<noteq> 1 \<longrightarrow>
      answered example_env ''k1'' (length (requests initial_world) + k) (?kws ! k)"
  proof (intro allI impI)
    fix k :: nat assume "k < 3" and "k \<noteq> 1"
    then consider "k = 0" | "k = 2" by linarith
    then show "answered example_env ''k1'' (length (requests initial_world) + k) (?kws ! k)"
      using a0 a2 n by cases simp_all
  qed
  have "length results = 2 \<and> map keyword results = take 1 ?kws @ drop (Suc 1) ?kws"
    using three [rule_format, of 1] r1 others n by simp
  then have found: "map keyword results = [''shoes'', ''hats''] \<and> length results = 2"
    by simp
  have "\<exists>results w'.
      main_collect example_env ''k1'' ''example.com'' ?kws [] initial_world = (Inr results, w') \<and>
      map keyword results = [''shoes'', ''hats''] \<and> length results = 2"
    by (rule exI [of _ results], rule exI [of _ w']) (use run found in simp)
  with a0 [of 0] r1 [of 1] a2 [of 2] show ?thesis by (intro conjI)
qed

subsection \<open>The mandatory settings\<close>

lemma main_stops:
  assumes "load_config env (arg_config args) = Inr (YMapping cfg)"
    and "falsy (getenv env ''SERPAPI_KEY'' (cfg ''SERPAPI_KEY'')) \<or>
         falsy (getenv env ''TARGET_DOMAIN'' (cfg ''TARGET_DOMAIN''))"
  shows "main env args w = (Exit 1, w\<lparr>stderr := stderr w @ [missing_settings_message]\<rparr>)"
  using assms by (auto simp: main_def Let_def)

text \<open>
  \<^verbatim>\<open>main\<close> ends before the keyword file is read, or goes on with an API key and a target
  domain that are not empty: the extractor is never called with an empty target domain.
\<close>

lemma main_enters_with_settings:
  "(\<exists>e. main env args w = (Raised e, w)) \<or>
   main env args w = (Exit 1, w\<lparr>stderr := stderr w @ [missing_settings_message]\<rparr>) \<or>
   (\<exists>k d c. k \<noteq> [] \<and> d \<noteq> [] \<and> main env args w = main_run env args k d c w)"
proof (cases "load_config env (arg_config args)")
  case (Inl e)
  then show ?thesis by (simp add: main_def)
next
  case (Inr doc)
  show ?thesis
  proof (cases doc)
    case YNone
    with Inr show ?thesis by (simp add: main_def)
  next
    case (YMapping cfg)
    let ?k = "getenv env ''SERPAPI_KEY'' (cfg ''SERPAPI_KEY'')"
    let ?d = "getenv env ''TARGET_DOMAIN'' (cfg ''TARGET_DOMAIN'')"
    show ?thesis
    proof (cases "falsy ?k \<or> falsy ?d")
      case True
      with Inr YMapping show ?thesis using main_stops [of env args cfg w] by simp
    next
      case False
      then obtain k d where "?k = Some k" "k \<noteq> []" "?d = Some d" "d \<noteq> []"
        by (auto simp: falsy_def split: option.splits)
      with Inr YMapping show ?thesis
        by (auto simp: main_def Let_def falsy_def)
    qed
  qed
qed

text \<open>
  Claim C4. When the configuration file is a mapping and, after the environment variables
  have overridden it, the API key or the target domain is unresolved (\<^verbatim>\<open>None\<close> or the empty
  string), \<^verbatim>\<open>main\<close> exits with status 1; all it has done is to write one line to the error
  stream: no request was made and the spreadsheet was not touched.
\<close>

theorem unresolved_settings_exit_1:
  assumes "load_config env (arg_config args) = Inr (YMapping cfg)"
    and "falsy (getenv env ''SERPAPI_KEY'' (cfg ''SERPAPI_KEY'')) \<or>
         falsy (getenv env ''TARGET_DOMAIN'' (cfg ''TARGET_DOMAIN''))"
  shows "main env args w = (Exit 1, w\<lparr>stderr := stderr w @ [missing_settings_message]\<rparr>) \<and>
         requests (snd (main env args w)) = requests w \<and>
         sheet_calls (snd (main env args w)) = sheet_calls w \<and>
         sheet_rows (snd (main env args w)) = sheet_rows w"
  using main_stops [OF assms] by simp

theorem unresolved_settings_exit_1_witness:
  "load_config unconfigured_env (arg_config default_arguments) = Inr (YMapping Map.empty) \<and>
   falsy (getenv unconfigured_env ''SERPAPI_KEY'' None) \<and>
   falsy (getenv unconfigured_env ''TARGET_DOMAIN'' None) \<and>
   main unconfigured_env default_arguments initial_world =
     (Exit 1, initial_world\<lparr>stderr :=
        [''SERPAPI_KEY and TARGET_DOMAIN must be set in environment or config.'']\<rparr>) \<and>
   requests (snd (main unconfigured_env default_arguments initial_world)) = []"
proof -
  have 1: "load_config unconfigured_env (arg_config default_arguments) = Inr (YMapping Map.empty)"
    by (simp add: load_config_def unconfigured_env_def example_env_def default_arguments_def)
  have 2: "falsy (getenv unconfigured_env ''SERPAPI_KEY'' None)"
    and 3: "falsy (getenv unconfigured_env ''TARGET_DOMAIN'' None)"
    by (simp_all add: falsy_def getenv_def unconfigured_env_def example_env_def)
  have 4: "falsy (getenv unconfigured_env ''SERPAPI_KEY'' (Map.empty ''SERPAPI_KEY'')) \<or>
           falsy (getenv unconfigured_env ''TARGET_DOMAIN'' (Map.empty ''TARGET_DOMAIN''))"
    using 2 by simp
  from unresolved_settings_exit_1 [OF 1 4, of initial_world] 1 2 3
  show ?thesis by (simp add: missing_settings_message_def initial_world_def)
qed

text \<open>
  Claim C10. When \<^verbatim>\<open>SERPAPI_KEY\<close> or \<^verbatim>\<open>TARGET_DOMAIN\<close> is set to the empty string in the
  environment, the merged setting is the empty string whatever the configuration file
  gives for it (a non-empty value too), and \<^verbatim>\<open>main\<close> exits with status 1.
\<close>

theorem empty_environment_value_overrides:
  assumes "load_config env (arg_config args) = Inr (YMapping cfg)"
    and "name = ''SERPAPI_KEY'' \<or> name = ''TARGET_DOMAIN''"
    and "environ env name = Some []"
  shows "getenv env name (cfg name) = Some [] \<and>
         main env args w = (Exit 1, w\<lparr>stderr := stderr w @ [missing_settings_message]\<rparr>)"
proof -
  have over: "getenv env name (cfg name) = Some []"
    using assms(3) by (simp add: getenv_def)
  then have "falsy (getenv env name (cfg name))" by (simp add: falsy_def)
  with assms(2) have "falsy (getenv env ''SERPAPI_KEY'' (cfg ''SERPAPI_KEY'')) \<or>
         falsy (getenv env ''TARGET_DOMAIN'' (cfg ''TARGET_DOMAIN''))" by auto
  with over show ?thesis using main_stops [OF assms(1)] by simp
qed

theorem empty_environment_value_overrides_witness:
  "load_config emptied_env (arg_config default_arguments) =
     Inr (YMapping [''SERPAPI_KEY'' \<mapsto> ''k1'', ''TARGET_DOMAIN'' \<mapsto> ''example.com'']) \<and>
   environ emptied_env ''SERPAPI_KEY'' = Some [] \<and>
   getenv emptied_env ''SERPAPI_KEY'' (Some ''k1'') = Some [] \<and>
   main emptied_env default_arguments initial_world =
     (Exit 1, initial_world\<lparr>stderr :=
        [''SERPAPI_KEY and TARGET_DOMAIN must be set in environment or config.'']\<rparr>)"
proof -
  let ?cfg = "[''SERPAPI_KEY'' \<mapsto> ''k1'', ''TARGET_DOMAIN'' \<mapsto> ''example.com'']"
  have 1: "load_config emptied_env (arg_config default_arguments) = Inr (YMapping ?cfg)"
    by (simp add: load_config_def emptied_env_def example_env_def default_arguments_def)
  have 2: "''SERPAPI_KEY'' = ''SERPAPI_KEY'' \<or> ''SERPAPI_KEY'' = ''TARGET_DOMAIN''" by simp
  have 3: "environ emptied_env ''SERPAPI_KEY'' = Some []"
    by (simp add: emptied_env_def)
  from empty_environment_value_overrides [OF 1 2 3, of initial_world] 1 3
  show ?thesis by (simp add: missing_settings_message_def initial_world_def)
qed

subsection \<open>Printed numbers\<close>

text \<open>A printed number consists of digits and reads back as the number.\<close>

lemma digit_val_digits: "list_all (\<lambda>m. digit_val (''0123456789'' ! m) = m) [0..<10]"
  by code_simp

lemma digit_val_digit: "digit_val (digit n) = n mod 10"
proof -
  have "n mod 10 \<in> set [0..<10]" by simp
  with digit_val_digits show ?thesis
    unfolding list_all_iff digit_def by blast
qed

lemma isdigit_digit: "isdigit (digit n)"
proof -
  have "n mod 10 < length ''0123456789''" by simp
  then have "''0123456789'' ! (n mod 10) \<in> set ''0123456789''" by (rule nth_mem)
  then show ?thesis by (simp only: isdigit_def digit_def)
qed

lemma nat_of_digits_snoc: "nat_of_digits (s @ [c]) = 10 * nat_of_digits s + digit_val c"
  by (simp add: nat_of_digits_def)

lemma nat_of_digits_str_nat: "nat_of_digits (str_nat n) = n"
proof (induction n rule: str_nat.induct)
  case (1 n)
  show ?case
  proof (cases "n < 10")
    case True
    then show ?thesis
      by (simp add: str_nat.simps [of n] nat_of_digits_def digit_val_digit)
  next
    case False
    with "1.IH" have "nat_of_digits (str_nat (n div 10)) = n div 10" by simp
    with False show ?thesis
      by (simp add: str_nat.simps [of n] nat_of_digits_snoc digit_val_digit)
  qed
qed

lemma nat_of_digits_zeros: "nat_of_digits (replicate k (CHR ''0'') @ s) = nat_of_digits s"
proof -
  have "foldl (\<lambda>a c. 10 * a + digit_val c) 0 (replicate k (CHR ''0'')) = 0"
    by (induction k) (simp_all add: digit_val_def)
  then show ?thesis by (simp add: nat_of_digits_def)
qed

lemma nat_of_digits_zpad: "nat_of_digits (zpad w n) = n"
  by (simp add: zpad_def nat_of_digits_zeros nat_of_digits_str_nat)

lemma length_str_nat: "n < 10 ^ k \<Longrightarrow> 0 < k \<Longrightarrow> length (str_nat n) \<le> k"
proof (induction n arbitrary: k rule: str_nat.induct)
  case (1 n)
  show ?case
  proof (cases "n < 10")
    case True
    with "1.prems" show ?thesis by (simp add: str_nat.simps [of n])
  next
    case False
    from "1.prems" obtain j where k: "k = Suc j" by (cases k) auto
    with False "1.prems" have "0 < j" by (cases j) auto
    moreover from "1.prems" k have "n div 10 < 10 ^ j"
      by (simp add: less_mult_imp_div_less mult.commute)
    ultimately have "length (str_nat (n div 10)) \<le> j" using "1.IH" False by simp
    with False k show ?thesis by (simp add: str_nat.simps [of n])
  qed
qed

lemma length_zpad: "n < 10 ^ k \<Longrightarrow> 0 < k \<Longrightarrow> length (zpad k n) = k"
  using length_str_nat [of n k] by (simp add: zpad_def)

lemma isdigit_str_nat: "list_all isdigit (str_nat n)"
proof (induction n rule: str_nat.induct)
  case (1 n)
  then show ?case
    by (cases "n < 10") (simp_all add: str_nat.simps [of n] isdigit_digit)
qed

lemma isdigit_zpad: "list_all isdigit (zpad w n)"
proof -
  have "isdigit (CHR ''0'')" by (simp add: isdigit_def)
  then have "list_all isdigit (replicate (w - length (str_nat n)) (CHR ''0''))"
    by (simp add: list_all_iff)
  then show ?thesis by (simp add: zpad_def isdigit_str_nat)
qed

subsection \<open>Saving the results\<close>

lemma dirname_no_slash: "CHR ''/'' \<notin> set p \<Longrightarrow> dirname p = []"
proof -
  assume "CHR ''/'' \<notin> set p"
  then have "\<forall>c\<in>set (rev p). c \<noteq> CHR ''/''" by auto
  then have "dropWhile (\<lambda>c. c \<noteq> CHR ''/'') (rev p) = []" by simp
  then show ?thesis by (simp add: dirname_def)
qed

text \<open>
  What is written does not decide whether \<open>write_file\<close> returns, and a file written is
  there afterwards.
\<close>

lemma write_file_any_content:
  "write_file path c w = Inr w' \<Longrightarrow>
   write_file path c' w = Inr (w\<lparr>files := (files w)(path \<mapsto> c')\<rparr>)"
  by (auto simp: write_file_def split: if_splits option.splits)

lemma save_to_csv_files:
  "save_to_csv results path w = Inr w' \<Longrightarrow> files w' path = Some (to_csv (DataFrame results))"
  by (auto simp: save_to_csv_def write_file_def split: if_splits option.splits)

lemma can_save_steps:
  assumes "can_save path w"
  obtains w1 where "makedirs (dirname path) w = Inr w1"
    and "save_to_csv results path w1 =
           Inr (w1\<lparr>files := (files w1)(path \<mapsto> to_csv (DataFrame results))\<rparr>)"
proof (cases "makedirs (dirname path) w")
  case (Inl e)
  with assms show ?thesis by (simp add: can_save_def)
next
  case made: (Inr w1)
  show ?thesis
  proof (cases "write_file path [] w1")
    case (Inl e)
    with assms made show ?thesis by (simp add: can_save_def)
  next
    case (Inr w2)
    then have "save_to_csv results path w1 =
        Inr (w1\<lparr>files := (files w1)(path \<mapsto> to_csv (DataFrame results))\<rparr>)"
      unfolding save_to_csv_def by (rule write_file_any_content)
    with made show ?thesis by (rule that)
  qed
qed

text \<open>Whether the results can be saved depends on the file system only.\<close>

lemma can_save_cong:
  assumes "dirs w' = dirs w" and "files w' = files w" and "fs_error w' = fs_error w"
  shows "can_save path w' = can_save path w"
  using assms by (simp add: can_save_def makedirs_def write_file_def split: option.split)

lemma append_rows_files: "files (snd (append_rows env results w)) = files w"
  by (induction results arbitrary: w) (simp_all split: option.split)

lemma update_google_sheet_files:
  "files (snd (update_google_sheet env results creds sheet_name w)) = files w"
  by (simp add: update_google_sheet_def Let_def append_rows_files split: option.split)

lemma update_google_sheet_empty:
  "gspread_installed env = False \<or> sheet_open env creds sheet_name = None \<Longrightarrow>
   fst (update_google_sheet env [] creds sheet_name w) = None"
  by (auto simp: update_google_sheet_def Let_def)

lemma main_sheet_files: "files (snd (main_sheet env args creds results w)) = files w"
proof (cases "arg_google_sheet args")
  case None
  then show ?thesis by (simp add: main_sheet_def)
next
  case sheet: (Some sheet_name)
  show ?thesis
  proof (cases creds)
    case None
    with sheet show ?thesis by (simp add: main_sheet_def)
  next
    case (Some c)
    have "files (snd (update_google_sheet env results c sheet_name w)) = files w"
      by (rule update_google_sheet_files)
    with sheet Some show ?thesis
      by (cases "update_google_sheet env results c sheet_name w")
        (auto simp: main_sheet_def split: option.split)
  qed
qed

lemma main_sheet_empty:
  assumes "sheet_opens env args creds"
  shows "fst (main_sheet env args creds [] w) = Exit 0"
proof (cases "arg_google_sheet args")
  case None
  then show ?thesis by (simp add: main_sheet_def)
next
  case sheet: (Some sheet_name)
  show ?thesis
  proof (cases creds)
    case None
    with sheet show ?thesis by (simp add: main_sheet_def)
  next
    case (Some c)
    show ?thesis
    proof (cases "sheet_name \<noteq> [] \<and> c \<noteq> []")
      case False
      with sheet Some show ?thesis by (auto simp: main_sheet_def)
    next
      case True
      with assms sheet Some
      have "gspread_installed env = False \<or> sheet_open env c sheet_name = None"
        by (simp add: sheet_opens_def)
      then have "fst (update_google_sheet env [] c sheet_name w) = None"
        by (rule update_google_sheet_empty)
      with True sheet Some show ?thesis
        by (cases "update_google_sheet env [] c sheet_name w") (simp add: main_sheet_def)
    qed
  qed
qed

text \<open>A run of \<open>main_save\<close> that ends with status 0 has written the table at the output path.\<close>

lemma main_save_written:
  assumes "fst (main_save env args creds results w) = Exit 0"
  shows "files (snd (main_save env args creds results w))
           (output_path_of args (strftime_ymd (utcnow env (clock_reads w))))
         = Some (to_csv (DataFrame results))"
proof -
  let ?path = "output_path_of args (strftime_ymd (utcnow env (clock_reads w)))"
  let ?w1 = "w\<lparr>clock_reads := Suc (clock_reads w)\<rparr>"
  from assms obtain w2 where m: "makedirs (dirname ?path) ?w1 = Inr w2"
    by (cases "makedirs (dirname ?path) ?w1") (simp_all add: main_save_def Let_def)
  from assms m obtain w3 where s: "save_to_csv results ?path w2 = Inr w3"
    by (cases "save_to_csv results ?path w2") (simp_all add: main_save_def Let_def)
  have "files w3 ?path = Some (to_csv (DataFrame results))"
    using s by (rule save_to_csv_files)
  with m s show ?thesis
    by (simp add: main_save_def Let_def main_sheet_files)
qed

text \<open>
  With no records, \<open>main_save\<close> ends with status 0 when the file system lets the results
  be saved and the spreadsheet opens.
\<close>

lemma main_save_empty:
  assumes "can_save (output_path_of args (strftime_ymd (utcnow env (clock_reads w)))) w"
    and "sheet_opens env args creds"
  shows "fst (main_save env args creds [] w) = Exit 0"
proof -
  let ?path = "output_path_of args (strftime_ymd (utcnow env (clock_reads w)))"
  let ?w1 = "w\<lparr>clock_reads := Suc (clock_reads w)\<rparr>"
  have c: "can_save ?path ?w1"
    using assms(1) can_save_cong [of ?w1 w ?path] by simp
  from can_save_steps [OF c, of "[]"] obtain w2
    where m: "makedirs (dirname ?path) ?w1 = Inr w2"
      and s: "save_to_csv [] ?path w2 =
                Inr (w2\<lparr>files := (files w2)(?path \<mapsto> to_csv (DataFrame []))\<rparr>)"
    by blast
  from m s show ?thesis
    by (simp add: main_save_def Let_def main_sheet_empty [OF assms(2)])
qed

subsection \<open>The example run, evaluated\<close>

lemma example_config:
  "load_config example_env (arg_config default_arguments) =
     Inr (YMapping [''SERPAPI_KEY'' \<mapsto> ''k1'', ''TARGET_DOMAIN'' \<mapsto> ''example.com''])"
  by (simp add: load_config_def example_env_def default_arguments_def)

lemma example_keywords:
  "load_keywords example_env (arg_keywords default_arguments) = Inr [''shoes'', ''boots'', ''hats'']"
  by (simp add: load_keywords_def example_env_def default_arguments_def strip_def isspace_def)

lemma blank_keywords:
  "load_keywords blank_env (arg_keywords default_arguments) = Inr []"
  by (simp add: load_keywords_def blank_env_def example_env_def default_arguments_def strip_def
      isspace_def)

lemma example_today: "strftime_ymd example_time = ''2024-03-09''"
  by (simp add: strftime_ymd_def example_time_def zpad_def str_nat.simps digit_def)

lemma example_path:
  "output_path_of default_arguments ''2024-03-09'' = ''results/keyword_rankings_2024-03-09.csv''"
  by (simp add: output_path_of_def default_arguments_def truthy_def)

lemma example_dirname: "dirname ''results/keyword_rankings_2024-03-09.csv'' = ''results''"
  by (simp add: dirname_def)

lemma example_basename:
  "basename ''results/keyword_rankings_2024-03-09.csv'' = ''keyword_rankings_2024-03-09.csv''"
  by (simp add: basename_def)

lemma example_ancestors:
  "ancestors ''results'' = []"
  "ancestors ''results/keyword_rankings_2024-03-09.csv'' = [''results'']"
  by (simp_all add: ancestors_def rstrip_slashes_def)

lemma example_can_save: "can_save ''results/keyword_rankings_2024-03-09.csv'' initial_world"
  by (simp add: can_save_def makedirs_def write_file_def example_dirname example_basename
      example_ancestors rstrip_slashes_def initial_world_def)

lemma example_collect:
  "main_collect example_env ''k1'' ''example.com'' [''shoes'', ''boots'', ''hats''] [] initial_world =
     (Inr [\<lparr>keyword = ''shoes'', rank = Some 3, url = Some ''https://www.example.com/shop'',
             search_volume = Some 1200, timestamp = ''2024-03-09T17:05:42''\<rparr>,
           \<lparr>keyword = ''hats'', rank = Some 3, url = Some ''https://www.example.com/shop'',
             search_volume = Some 1200, timestamp = ''2024-03-09T17:05:42''\<rparr>],
      initial_world\<lparr>requests :=
          [''https://serpapi.com/search.json?q=shoes&engine=google&api_key=k1'',
           ''https://serpapi.com/search.json?q=boots&engine=google&api_key=k1'',
           ''https://serpapi.com/search.json?q=hats&engine=google&api_key=k1''],
        stderr := [''Error fetching SERP for boots: 503''],
        clock_reads := 2\<rparr>)"
  by (simp add: fetch_serp_data_def Let_def example_env_def request_url_def initial_world_def
      get_results_def get_total_results_def example_data_def example_results_def get_link_def
      example_isoformat str_int_def str_nat.simps digit_def)

lemma example_write:
  "write_file ''results/out.csv'' content prepared_world =
     Inr (prepared_world\<lparr>files := [''results/out.csv'' \<mapsto> content]\<rparr>)"
  by (simp add: write_file_def prepared_world_def initial_world_def dirname_def basename_def
      ancestors_def rstrip_slashes_def)

text \<open>
  Where the file system does not let the results be saved: a regular file on the way to
  the parent directory, a path that names a directory, a parent that does not exist.
\<close>

lemma blocked_makedirs: "makedirs ''f/sub'' blocked_world = Inl NotADirectoryError"
  by (simp add: makedirs_def blocked_world_def initial_world_def ancestors_def rstrip_slashes_def)

lemma blocked_can_save: "\<not> can_save ''f/sub/out.csv'' blocked_world"
proof -
  have "dirname ''f/sub/out.csv'' = ''f/sub''" by (simp add: dirname_def)
  then show ?thesis by (simp add: can_save_def blocked_makedirs)
qed

lemma write_file_directory:
  "write_file ''results/.'' content prepared_world = Inl IsADirectoryError"
  "write_file ''results/'' content prepared_world = Inl IsADirectoryError"
  "write_file ''results'' content prepared_world = Inl IsADirectoryError"
  by (simp_all add: write_file_def prepared_world_def initial_world_def basename_def dirname_def
      ancestors_def rstrip_slashes_def)

lemma write_file_no_parent:
  "write_file ''nodir/out.csv'' content prepared_world = Inl OSError"
  "write_file ''f/out.csv'' content blocked_world = Inl OSError"
  by (simp_all add: write_file_def prepared_world_def blocked_world_def initial_world_def
      basename_def dirname_def ancestors_def rstrip_slashes_def)

subsection \<open>A run without records\<close>

lemma main_collect_all_refused:
  assumes "\<forall>k<length kws. refused env api_key (n + k) (kws ! k)"
    and "n = length (requests w)"
  shows "\<exists>w'. main_collect env api_key t kws acc w = (Inr acc, w') \<and>
           clock_reads w' = clock_reads w \<and> dirs w' = dirs w \<and> files w' = files w \<and>
           fs_error w' = fs_error w"
  using assms
proof (induction kws arbitrary: w n)
  case Nil
  then show ?case by simp
next
  case (Cons kw kws)
  from Cons.prems(1) have "refused env api_key (n + 0) ((kw # kws) ! 0)" by blast
  with Cons.prems(2) have "refused env api_key (length (requests w)) kw" by simp
  then obtain msg where f: "fetch_serp_data env kw api_key t w =
      (Inr None, w\<lparr>requests := requests w @ [request_url kw api_key],
                   stderr := stderr w @ [msg]\<rparr>)"
    using fetch_serp_data_refused by blast
  let ?w1 = "w\<lparr>requests := requests w @ [request_url kw api_key], stderr := stderr w @ [msg]\<rparr>"
  have rest: "\<forall>k<length kws. refused env api_key (Suc n + k) (kws ! k)"
  proof (intro allI impI)
    fix k assume "k < length kws"
    then have "Suc k < length (kw # kws)" by simp
    with Cons.prems(1) have "refused env api_key (n + Suc k) ((kw # kws) ! Suc k)" by blast
    then show "refused env api_key (Suc n + k) (kws ! k)" by simp
  qed
  have "Suc n = length (requests ?w1)" using Cons.prems(2) by simp
  from Cons.IH [OF rest this] obtain w'
    where "main_collect env api_key t kws acc ?w1 = (Inr acc, w')"
      and "clock_reads w' = clock_reads ?w1" and "dirs w' = dirs ?w1" and "files w' = files ?w1"
      and "fs_error w' = fs_error ?w1"
    by blast
  with f show ?case by simp
qed

lemma to_csv_empty: "to_csv (DataFrame []) = [[]]"
  by (simp add: to_csv_def DataFrame_def)

lemma main_resolved:
  assumes "load_config env (arg_config args) = Inr (YMapping cfg)"
    and "getenv env ''SERPAPI_KEY'' (cfg ''SERPAPI_KEY'') = Some api_key"
    and "api_key \<noteq> []"
    and "getenv env ''TARGET_DOMAIN'' (cfg ''TARGET_DOMAIN'') = Some target_domain"
    and "target_domain \<noteq> []"
  shows "main env args w = main_run env args api_key target_domain
       (getenv env ''GOOGLE_SHEETS_CREDENTIALS'' (cfg ''GOOGLE_SHEETS_CREDENTIALS'')) w"
  using assms by (simp add: main_def Let_def falsy_def)

lemma main_run_collected:
  assumes "load_keywords env (arg_keywords args) = Inr kws"
    and "main_collect env api_key target_domain kws [] w = (Inr results, w1)"
  shows "main_run env args api_key target_domain creds w = main_save env args creds results w1"
  using assms by (simp add: main_run_def)

text \<open>
  A run with no keyword and \<^verbatim>\<open>--output f/sub/out.csv\<close>, where \<^verbatim>\<open>f\<close> is a regular file, ends
  with the exception of \<^verbatim>\<open>os.makedirs\<close>: such a file system does not let the results be
  saved.
\<close>

lemma blocked_run:
  "main blank_env (default_arguments\<lparr>arg_output := Some ''f/sub/out.csv''\<rparr>) blocked_world =
     (Raised NotADirectoryError, blocked_world\<lparr>clock_reads := 1\<rparr>)"
proof -
  let ?args = "default_arguments\<lparr>arg_output := Some ''f/sub/out.csv''\<rparr>"
  let ?cfg = "[''SERPAPI_KEY'' \<mapsto> ''k1'', ''TARGET_DOMAIN'' \<mapsto> ''example.com'']"
  have c: "load_config blank_env (arg_config ?args) = Inr (YMapping ?cfg)"
    using example_config by (simp add: load_config_def blank_env_def)
  have k: "load_keywords blank_env (arg_keywords ?args) = Inr []"
    using blank_keywords by simp
  have g: "getenv blank_env ''SERPAPI_KEY'' (?cfg ''SERPAPI_KEY'') = Some ''k1''"
    "getenv blank_env ''TARGET_DOMAIN'' (?cfg ''TARGET_DOMAIN'') = Some ''example.com''"
    by (simp_all add: getenv_def blank_env_def example_env_def)
  have ne: "''k1'' \<noteq> []" "''example.com'' \<noteq> []" by simp_all
  have l: "main_collect blank_env ''k1'' ''example.com'' [] [] blocked_world
             = (Inr [], blocked_world)" by simp
  have d: "dirname ''f/sub/out.csv'' = ''f/sub''" by (simp add: dirname_def)
  have m: "makedirs ''f/sub'' (blocked_world\<lparr>clock_reads := Suc (clock_reads blocked_world)\<rparr>)
             = Inl NotADirectoryError"
    by (simp add: makedirs_def blocked_world_def initial_world_def ancestors_def
        rstrip_slashes_def)
  have "main_save blank_env ?args c' [] blocked_world =
          (Raised NotADirectoryError, blocked_world\<lparr>clock_reads := 1\<rparr>)" for c'
    using d m
    by (simp add: main_save_def Let_def output_path_of_def truthy_def blocked_world_def
        initial_world_def)
  then show ?thesis
    unfolding main_resolved [OF c g(1) ne(1) g(2) ne(2)] main_run_collected [OF k l]
    by simp
qed

text \<open>
  Claim C9. Let the two mandatory settings be resolved and the keyword file be read, and
  let the keyword list be empty or every request of the loop be refused (a status other
  than 200). If the file system lets the results be saved at the output path (the making
  of the parent directory returns, and then the opening of the path for writing), and
  the spreadsheet (when asked for) opens, then \<^verbatim>\<open>main\<close> ends with status 0 and the file at
  the output path is the CSV of no records: an empty header line and no row.
\<close>

theorem empty_results_still_saved:
  assumes "load_config env (arg_config args) = Inr (YMapping cfg)"
    and "getenv env ''SERPAPI_KEY'' (cfg ''SERPAPI_KEY'') = Some api_key"
    and "api_key \<noteq> []"
    and "getenv env ''TARGET_DOMAIN'' (cfg ''TARGET_DOMAIN'') = Some target_domain"
    and "target_domain \<noteq> []"
    and "load_keywords env (arg_keywords args) = Inr kws"
    and "kws = [] \<or> (\<forall>k<length kws. refused env api_key (length (requests w) + k) (kws ! k))"
    and "path = output_path_of args (strftime_ymd (utcnow env (clock_reads w)))"
    and "can_save path w"
    and "sheet_opens env args
           (getenv env ''GOOGLE_SHEETS_CREDENTIALS'' (cfg ''GOOGLE_SHEETS_CREDENTIALS''))"
  shows "fst (main env args w) = Exit 0 \<and>
         files (snd (main env args w)) path = Some (to_csv (DataFrame [])) \<and>
         to_csv (DataFrame []) = [[]]"
proof -
  let ?creds = "getenv env ''GOOGLE_SHEETS_CREDENTIALS'' (cfg ''GOOGLE_SHEETS_CREDENTIALS'')"
  have "\<forall>k<length kws. refused env api_key (length (requests w) + k) (kws ! k)"
  proof (cases "kws = []")
    case True
    then show ?thesis by simp
  next
    case False
    with assms(7) show ?thesis by simp
  qed
  from main_collect_all_refused [OF this refl, of target_domain "[]"] obtain w1
    where loop: "main_collect env api_key target_domain kws [] w = (Inr [], w1)"
      and same: "clock_reads w1 = clock_reads w" "dirs w1 = dirs w" "files w1 = files w"
        "fs_error w1 = fs_error w"
    by blast
  have run: "main env args w = main_save env args ?creds [] w1"
    using main_resolved [OF assms(1-5)] main_run_collected [OF assms(6) loop] by simp
  have p: "path = output_path_of args (strftime_ymd (utcnow env (clock_reads w1)))"
    using assms(8) same(1) by simp
  have "can_save path w1"
    using assms(9) can_save_cong [OF same(2,3,4), of path] by simp
  with p have ok: "fst (main_save env args ?creds [] w1) = Exit 0"
    using main_save_empty [OF _ assms(10), of w1] by simp
  from main_save_written [OF ok] p run ok to_csv_empty show ?thesis by simp
qed

theorem empty_results_still_saved_witness:
  "load_keywords refusing_env (arg_keywords default_arguments) = Inr [''shoes'', ''boots'', ''hats''] \<and>
   refused refusing_env ''k1'' 0 ''shoes'' \<and>
   refused refusing_env ''k1'' 1 ''boots'' \<and>
   refused refusing_env ''k1'' 2 ''hats'' \<and>
   fst (main refusing_env default_arguments initial_world) = Exit 0 \<and>
   files (snd (main refusing_env default_arguments initial_world))
     ''results/keyword_rankings_2024-03-09.csv'' = Some [[]] \<and>
   load_keywords blank_env (arg_keywords default_arguments) = Inr [] \<and>
   fst (main blank_env default_arguments initial_world) = Exit 0 \<and>
   files (snd (main blank_env default_arguments initial_world))
     ''results/keyword_rankings_2024-03-09.csv'' = Some [[]]"
proof -
  let ?cfg = "[''SERPAPI_KEY'' \<mapsto> ''k1'', ''TARGET_DOMAIN'' \<mapsto> ''example.com'']"
  let ?path = "''results/keyword_rankings_2024-03-09.csv''"
  let ?kws = "[''shoes'', ''boots'', ''hats'']"
  have no: "refused refusing_env ''k1'' n kw" for n kw
    by (simp add: refused_def refusing_env_def)
  have r1: "load_config refusing_env (arg_config default_arguments) = Inr (YMapping ?cfg)"
    using example_config by (simp add: load_config_def refusing_env_def)
  have r2: "getenv refusing_env ''SERPAPI_KEY'' (?cfg ''SERPAPI_KEY'') = Some ''k1''"
    and r4: "getenv refusing_env ''TARGET_DOMAIN'' (?cfg ''TARGET_DOMAIN'') = Some ''example.com''"
    by (simp_all add: getenv_def refusing_env_def example_env_def)
  have r6: "load_keywords refusing_env (arg_keywords default_arguments) = Inr ?kws"
    using example_keywords by (simp add: load_keywords_def refusing_env_def)
  have r7: "?kws = [] \<or> (\<forall>k<length ?kws.
      refused refusing_env ''k1'' (length (requests initial_world) + k) (?kws ! k))"
    using no by simp
  have r8: "?path = output_path_of default_arguments
      (strftime_ymd (utcnow refusing_env (clock_reads initial_world)))"
    by (simp add: refusing_env_def example_env_def example_today example_path)
  have r10: "sheet_opens refusing_env default_arguments
      (getenv refusing_env ''GOOGLE_SHEETS_CREDENTIALS'' (?cfg ''GOOGLE_SHEETS_CREDENTIALS''))"
    by (simp add: sheet_opens_def default_arguments_def)
  have b1: "load_config blank_env (arg_config default_arguments) = Inr (YMapping ?cfg)"
    using example_config by (simp add: load_config_def blank_env_def)
  have b2: "getenv blank_env ''SERPAPI_KEY'' (?cfg ''SERPAPI_KEY'') = Some ''k1''"
    and b4: "getenv blank_env ''TARGET_DOMAIN'' (?cfg ''TARGET_DOMAIN'') = Some ''example.com''"
    by (simp_all add: getenv_def blank_env_def example_env_def)
  have b7: "[] = [] \<or> (\<forall>k<length ([] :: string list).
      refused blank_env ''k1'' (length (requests initial_world) + k) ([] ! k))"
    by simp
  have b8: "?path = output_path_of default_arguments
      (strftime_ymd (utcnow blank_env (clock_reads initial_world)))"
    by (simp add: blank_env_def example_env_def example_today example_path)
  have b10: "sheet_opens blank_env default_arguments
      (getenv blank_env ''GOOGLE_SHEETS_CREDENTIALS'' (?cfg ''GOOGLE_SHEETS_CREDENTIALS''))"
    by (simp add: sheet_opens_def default_arguments_def)
  have ne: "''k1'' \<noteq> []" "''example.com'' \<noteq> []" by simp_all
  note refusing = empty_results_still_saved
    [OF r1 r2 ne(1) r4 ne(2) r6 r7 r8 example_can_save r10]
  note blank = empty_results_still_saved
    [OF b1 b2 ne(1) b4 ne(2) blank_keywords b7 b8 example_can_save b10]
  from refusing blank r6 blank_keywords no [of 0 "''shoes''"] no [of 1 "''boots''"]
    no [of 2 "''hats''"]
  show ?thesis by simp
qed

subsection \<open>The output path\<close>

lemma strftime_ymd_parts:
  assumes "year d \<le> 9999" and "month d \<le> 12" and "day d \<le> 31"
  shows "length (zpad 4 (year d)) = 4" and "length (zpad 2 (month d)) = 2"
    and "length (zpad 2 (day d)) = 2"
  using assms by (simp_all add: length_zpad)

text \<open>
  Claim C8. When \<^verbatim>\<open>--output\<close> is omitted, the output path is
  \<^verbatim>\<open>results/keyword_rankings_\<close>, the date of the clock's reading, \<^verbatim>\<open>.csv\<close>; for a date of the
  years 1000 to 9999 the date has the form \<^verbatim>\<open>YYYY-MM-DD\<close>: ten characters, four digits that
  read as the year, a hyphen, two digits that read as the month, a hyphen, two digits that
  read as the day. A run of lines 93 to 100 that ends with status 0 has written the CSV at
  that path.
\<close>

theorem default_output_path_has_utc_date:
  assumes "arg_output args = None"
    and "d = utcnow env (clock_reads w)"
    and "1000 \<le> year d" and "year d \<le> 9999"
    and "1 \<le> month d" and "month d \<le> 12"
    and "1 \<le> day d" and "day d \<le> 31"
    and "today = strftime_ymd d"
    and "path = ''results/keyword_rankings_'' @ today @ ''.csv''"
  shows "output_path_of args today = path \<and>
         length today = 10 \<and>
         list_all isdigit (take 4 today) \<and> nat_of_digits (take 4 today) = year d \<and>
         today ! 4 = CHR ''-'' \<and>
         list_all isdigit (take 2 (drop 5 today)) \<and> nat_of_digits (take 2 (drop 5 today)) = month d \<and>
         today ! 7 = CHR ''-'' \<and>
         list_all isdigit (drop 8 today) \<and> nat_of_digits (drop 8 today) = day d \<and>
         (fst (main_save env args creds results w) = Exit 0 \<longrightarrow>
            files (snd (main_save env args creds results w)) path = Some (to_csv (DataFrame results)))"
proof -
  let ?y = "zpad 4 (year d)" and ?m = "zpad 2 (month d)" and ?d = "zpad 2 (day d)"
  have ly: "length ?y = 4" and lm: "length ?m = 2" and ld: "length ?d = 2"
    using strftime_ymd_parts [OF assms(4,6,8)] by simp_all
  have today: "today = ?y @ ''-'' @ ?m @ ''-'' @ ?d"
    using assms(9) by (simp add: strftime_ymd_def)
  have out: "output_path_of args today = path"
    using assms(1,10) by (simp add: output_path_of_def truthy_def)
  have len: "length today = 10" using today ly lm ld by simp
  have t4: "take 4 today = ?y" using today ly by simp
  have t5: "take 2 (drop 5 today) = ?m" using today ly lm by simp
  have t8: "drop 8 today = ?d" using today ly lm by simp
  have s4: "today ! 4 = CHR ''-''" using today ly by (simp add: nth_append)
  have s7: "today ! 7 = CHR ''-''" using today ly lm by (simp add: nth_append)
  have saved: "files (snd (main_save env args creds results w)) path
                 = Some (to_csv (DataFrame results))"
    if "fst (main_save env args creds results w) = Exit 0"
    using main_save_written [OF that] out assms(2,9) by simp
  from out len t4 t5 t8 s4 s7 saved show ?thesis
    by (simp add: isdigit_zpad nat_of_digits_zpad)
qed

theorem default_output_path_has_utc_date_witness:
  "arg_output default_arguments = None \<and>
   strftime_ymd (utcnow example_env (clock_reads initial_world)) = ''2024-03-09'' \<and>
   output_path_of default_arguments ''2024-03-09'' = ''results/keyword_rankings_2024-03-09.csv'' \<and>
   fst (main_save example_env default_arguments None [] initial_world) = Exit 0 \<and>
   files (snd (main_save example_env default_arguments None [] initial_world))
     ''results/keyword_rankings_2024-03-09.csv'' = Some [[]]"
proof -
  let ?d = "utcnow example_env (clock_reads initial_world)"
  have d: "?d = example_time" by (simp add: example_env_def)
  have 1: "arg_output default_arguments = None" by (simp add: default_arguments_def)
  have 3: "1000 \<le> year ?d" and 4: "year ?d \<le> 9999" and 5: "1 \<le> month ?d"
    and 6: "month ?d \<le> 12" and 7: "1 \<le> day ?d" and 8: "day ?d \<le> 31"
    by (simp_all add: d example_time_def)
  have 9: "''2024-03-09'' = strftime_ymd ?d" by (simp add: d example_today)
  have 10: "''results/keyword_rankings_2024-03-09.csv'' =
              ''results/keyword_rankings_'' @ ''2024-03-09'' @ ''.csv''" by simp
  have ok: "fst (main_save example_env default_arguments None [] initial_world) = Exit 0"
  proof (rule main_save_empty)
    show "can_save (output_path_of default_arguments
            (strftime_ymd (utcnow example_env (clock_reads initial_world)))) initial_world"
      using example_can_save by (simp add: d example_today example_path)
    show "sheet_opens example_env default_arguments None"
      by (simp add: sheet_opens_def default_arguments_def)
  qed
  from default_output_path_has_utc_date [OF 1 refl 3 4 5 6 7 8 9 10, of None "[]"] ok 1 9
  show ?thesis by (simp add: to_csv_empty)
qed

text \<open>
  Claim C7 does not hold of the code. For an output path with no slash the parent
  directory's name is empty, \<^verbatim>\<open>os.makedirs\<close> raises \<^verbatim>\<open>FileNotFoundError\<close> on it, and lines 93
  to 100 end there: nothing is written. The example run with \<^verbatim>\<open>--output out.csv\<close> makes
  its three requests and ends with the exception.
\<close>

theorem output_without_directory_raises:
  assumes "arg_output args = Some p" and "p \<noteq> []" and "CHR ''/'' \<notin> set p"
  shows "main_save env args creds results w =
           (Raised FileNotFoundError, w\<lparr>clock_reads := Suc (clock_reads w)\<rparr>)"
proof -
  have "output_path_of args (strftime_ymd (utcnow env (clock_reads w))) = p"
    using assms(1,2) by (simp add: output_path_of_def truthy_def)
  moreover have "dirname p = []" using assms(3) by (rule dirname_no_slash)
  ultimately show ?thesis
    by (simp add: main_save_def Let_def makedirs_def)
qed

theorem output_without_directory_raises_witness:
  "main example_env (default_arguments\<lparr>arg_output := Some ''out.csv''\<rparr>) initial_world =
     (Raised FileNotFoundError,
      initial_world\<lparr>requests :=
          [''https://serpapi.com/search.json?q=shoes&engine=google&api_key=k1'',
           ''https://serpapi.com/search.json?q=boots&engine=google&api_key=k1'',
           ''https://serpapi.com/search.json?q=hats&engine=google&api_key=k1''],
        stderr := [''Error fetching SERP for boots: 503''],
        clock_reads := 3\<rparr>) \<and>
   files (snd (main example_env (default_arguments\<lparr>arg_output := Some ''out.csv''\<rparr>)
     initial_world)) = Map.empty"
proof -
  let ?args = "default_arguments\<lparr>arg_output := Some ''out.csv''\<rparr>"
  let ?cfg = "[''SERPAPI_KEY'' \<mapsto> ''k1'', ''TARGET_DOMAIN'' \<mapsto> ''example.com'']"
  have c: "load_config example_env (arg_config ?args) = Inr (YMapping ?cfg)"
    using example_config by simp
  have k: "load_keywords example_env (arg_keywords ?args) = Inr [''shoes'', ''boots'', ''hats'']"
    using example_keywords by simp
  have g: "getenv example_env ''SERPAPI_KEY'' (?cfg ''SERPAPI_KEY'') = Some ''k1''"
    "getenv example_env ''TARGET_DOMAIN'' (?cfg ''TARGET_DOMAIN'') = Some ''example.com''"
    by (simp_all add: getenv_def example_env_def)
  have ne: "''k1'' \<noteq> []" "''example.com'' \<noteq> []" by simp_all
  have a: "arg_output ?args = Some ''out.csv''" "''out.csv'' \<noteq> []"
    "CHR ''/'' \<notin> set ''out.csv''" by simp_all
  show ?thesis
    unfolding main_resolved [OF c g(1) ne(1) g(2) ne(2)]
      main_run_collected [OF k example_collect]
      output_without_directory_raises [OF a]
    by (simp add: initial_world_def)
qed

subsection \<open>The CSV file\<close>

text \<open>
  Claim C5 fails for the empty sequence: the data frame of no records has no columns, and
  the file written is a header line without names.
\<close>

theorem empty_sequence_csv_has_no_header:
  "save_to_csv [] ''results/out.csv'' prepared_world =
     Inr (prepared_world\<lparr>files := [''results/out.csv'' \<mapsto> [[]]]\<rparr>) \<and>
   hd ([[]] :: cell list list) \<noteq>
     [Str ''keyword'', Str ''rank'', Str ''url'', Str ''search_volume'', Str ''timestamp'']"
  by (simp add: save_to_csv_def example_write to_csv_empty)

text \<open>
  Claim C5, amended. When \<^verbatim>\<open>save_to_csv\<close> returns, the file at the path is a table whose
  first row is the header: the names \<^verbatim>\<open>keyword\<close>, \<^verbatim>\<open>rank\<close>, \<^verbatim>\<open>url\<close>, \<^verbatim>\<open>search_volume\<close>,
  \<^verbatim>\<open>timestamp\<close> for a sequence that is not empty, and no name for the empty sequence. The
  rows below it are one per record, in order, with the record's five fields in the order
  of the header; an absent field is an empty cell. (A present number is an integer cell
  when its column has no absent value; when it has one, the number is a float cell if all
  the numbers of the column fit 64 signed bits, and how it is held is left open if not.)
\<close>

theorem csv_of_records:
  assumes "save_to_csv results path w = Inr w'"
  shows "\<exists>table.
           files w' path = Some table \<and>
           (results \<noteq> [] \<longrightarrow>
              hd table =
                [Str ''keyword'', Str ''rank'', Str ''url'', Str ''search_volume'', Str ''timestamp'']) \<and>
           (results = [] \<longrightarrow> hd table = []) \<and>
           length (tl table) = length results \<and>
           (\<forall>i<length results.
              tl table ! i =
                [Str (keyword (results ! i)),
                 (case rank (results ! i) of
                    None \<Rightarrow> Blank
                  | Some n \<Rightarrow>
                      if None \<in> set (map rank results)
                      then if fits_int64 (map (\<lambda>r. map_option int (rank r)) results)
                           then FloatCell (int n) else NumCell (int n)
                      else IntCell (int n)),
                 (case url (results ! i) of None \<Rightarrow> Blank | Some u \<Rightarrow> Str u),
                 (case search_volume (results ! i) of
                    None \<Rightarrow> Blank
                  | Some v \<Rightarrow>
                      if None \<in> set (map search_volume results)
                      then if fits_int64 (map search_volume results)
                           then FloatCell v else NumCell v
                      else IntCell v),
                 Str (timestamp (results ! i))])"
proof -
  let ?table = "to_csv (DataFrame results)"
  let ?ranks = "map (\<lambda>r. map_option int (rank r)) results"
  let ?volumes = "map search_volume results"
  have written: "files w' path = Some ?table"
    using assms by (rule save_to_csv_files)
  have head: "hd ?table = map Str (if results = [] then [] else record_keys)"
    by (simp add: to_csv_def DataFrame_def)
  have rows: "tl ?table = map (frame_row ?ranks ?volumes) results"
    by (simp add: to_csv_def DataFrame_def)
  have missing: "(None \<in> set ?ranks) = (None \<in> set (map rank results))"
  proof
    assume "None \<in> set ?ranks"
    then obtain r where "r \<in> set results" and "map_option int (rank r) = None" by auto
    then have "r \<in> set results" and "rank r = None" by simp_all
    then show "None \<in> set (map rank results)" by force
  next
    assume "None \<in> set (map rank results)"
    then obtain r where "r \<in> set results" and "rank r = None" by auto
    then have "map_option int (rank r) = None" by simp
    with \<open>r \<in> set results\<close> show "None \<in> set ?ranks" by force
  qed
  have row: "frame_row ?ranks ?volumes r =
      [Str (keyword r),
       (case rank r of
          None \<Rightarrow> Blank
        | Some n \<Rightarrow>
            if None \<in> set (map rank results)
            then if fits_int64 ?ranks then FloatCell (int n) else NumCell (int n)
            else IntCell (int n)),
       (case url r of None \<Rightarrow> Blank | Some u \<Rightarrow> Str u),
       (case search_volume r of
          None \<Rightarrow> Blank
        | Some v \<Rightarrow>
            if None \<in> set ?volumes
            then if fits_int64 ?volumes then FloatCell v else NumCell v
            else IntCell v),
       Str (timestamp r)]" for r
    unfolding frame_row_def number_cell_def text_cell_def missing
    by (simp split: option.split)
  show ?thesis
  proof (intro exI [of _ ?table] conjI allI impI)
    show "files w' path = Some ?table" by (rule written)
    show "hd ?table =
        [Str ''keyword'', Str ''rank'', Str ''url'', Str ''search_volume'', Str ''timestamp'']"
      if "results \<noteq> []" using that head by (simp add: record_keys_def)
    show "hd ?table = []" if "results = []" using that head by simp
    show "length (tl ?table) = length results" using rows by simp
    show "tl ?table ! i =
                [Str (keyword (results ! i)),
                 (case rank (results ! i) of
                    None \<Rightarrow> Blank
                  | Some n \<Rightarrow>
                      if None \<in> set (map rank results)
                      then if fits_int64 (map (\<lambda>r. map_option int (rank r)) results)
                           then FloatCell (int n) else NumCell (int n)
                      else IntCell (int n)),
                 (case url (results ! i) of None \<Rightarrow> Blank | Some u \<Rightarrow> Str u),
                 (case search_volume (results ! i) of
                    None \<Rightarrow> Blank
                  | Some v \<Rightarrow>
                      if None \<in> set (map search_volume results)
                      then if fits_int64 (map search_volume results)
                           then FloatCell v else NumCell v
                      else IntCell v),
                 Str (timestamp (results ! i))]"
      if "i < length results" for i
      using that rows row [of "results ! i"] by simp
  qed
qed

theorem csv_of_records_witness:
  "save_to_csv example_records ''results/out.csv'' prepared_world =
     Inr (prepared_world\<lparr>files := [''results/out.csv'' \<mapsto>
       [[Str ''keyword'', Str ''rank'', Str ''url'', Str ''search_volume'', Str ''timestamp''],
        [Str ''shoes'', FloatCell 3, Str ''https://www.example.com/shop'', FloatCell 1200,
         Str ''2024-03-09T17:05:42''],
        [Str ''hats, caps'', Blank, Blank, Blank, Str ''2024-03-09T17:05:43'']]]\<rparr>)"
proof -
  let ?table = "[[Str ''keyword'', Str ''rank'', Str ''url'', Str ''search_volume'', Str ''timestamp''],
        [Str ''shoes'', FloatCell 3, Str ''https://www.example.com/shop'', FloatCell 1200,
         Str ''2024-03-09T17:05:42''],
        [Str ''hats, caps'', Blank, Blank, Blank, Str ''2024-03-09T17:05:43'']]"
  have t: "to_csv (DataFrame example_records) = ?table"
    by (simp add: to_csv_def DataFrame_def example_records_def record_keys_def frame_row_def
        number_cell_def fits_int64_def text_cell_def)
  have s: "save_to_csv example_records ''results/out.csv'' prepared_world =
      Inr (prepared_world\<lparr>files := [''results/out.csv'' \<mapsto> ?table]\<rparr>)"
    by (simp add: save_to_csv_def example_write t)
  from csv_of_records [OF s] s show ?thesis by simp
qed

end
